theory Spec2Isabelle
  imports Main "HOL-Library.Word"
begin

unbundle bit_operations_syntax

section \<open>Pixel format model (FAB\_LED.h, lines 48--126)\<close>

text \<open>
  The type tag of a pixel structure is a \<open>uint8_t\<close>: the top three bits give the colour
  byte order, the low two bits the extra byte.
\<close>

definition PT_RGB :: "8 word" where "PT_RGB = 0x20"
definition PT_GRB :: "8 word" where "PT_GRB = 0x40"
definition PT_BGR :: "8 word" where "PT_BGR = 0x80"
definition PT_COL :: "8 word" where "PT_COL = 0xE0"
definition PT_XXXW :: "8 word" where "PT_XXXW = 0x01"
definition PT_BXXX :: "8 word" where "PT_BXXX = 0x02"
definition PT_XBYT :: "8 word" where "PT_XBYT = 0x03"

text \<open>
  \<open>#define PT_BYTES_PER_PIXEL(v) (((v) & PT_XBYT != 0) ? 4 : 3)\<close>.
  In C and C++ the operator \<open>!=\<close> binds tighter than \<open>&\<close>, so the condition is
  \<open>v & (PT_XBYT != 0)\<close>: the comparison yields 1 (or 0) and is then and-ed with the tag.
\<close>

definition PT_BYTES_PER_PIXEL :: "8 word \<Rightarrow> nat" where
  "PT_BYTES_PER_PIXEL v =
     (if v AND (if PT_XBYT \<noteq> 0 then 1 else 0) \<noteq> 0 then 4 else 3)"

text \<open>The six pixel structures of the header, with their \<open>type\<close> constant and size.\<close>

datatype pixelClass = rgb | grb | bgr | rgbw | grbw | hbgr

fun pixel_type :: "pixelClass \<Rightarrow> 8 word" where
  "pixel_type rgb = PT_RGB"
| "pixel_type grb = PT_GRB"
| "pixel_type bgr = PT_BGR"
| "pixel_type rgbw = PT_RGB OR PT_XXXW"
| "pixel_type grbw = PT_GRB OR PT_XXXW"
| "pixel_type hbgr = PT_BGR OR PT_BXXX"

fun sizeof_pixel :: "pixelClass \<Rightarrow> nat" where
  "sizeof_pixel rgb = 3"
| "sizeof_pixel grb = 3"
| "sizeof_pixel bgr = 3"
| "sizeof_pixel rgbw = 4"
| "sizeof_pixel grbw = 4"
| "sizeof_pixel hbgr = 4"

text \<open>\<open>static const uint8_t stripBPP = PT_BYTES_PER_PIXEL(pixelClass::type)\<close>.\<close>

definition stripBPP :: "pixelClass \<Rightarrow> nat" where
  "stripBPP pc = PT_BYTES_PER_PIXEL (pixel_type pc)"

section \<open>Conversion between cycles and nanoseconds (lines 166--169)\<close>

text \<open>
  Both macros compute in \<open>uint64_t\<close>: \<open>CYCLES_PER_SEC\<close> is \<open>(uint64_t) F_CPU\<close> and
  \<open>NS_PER_SEC\<close> is an \<open>unsigned long long\<close> literal. The clock frequency \<open>F_CPU\<close> is a
  build setting; it is the first argument here. A division by zero is undefined in C:
  \<open>NANOSECONDS\<close> returns \<open>None\<close> there.
\<close>

definition NS_PER_SEC :: "64 word" where "NS_PER_SEC = 1000000000"

definition CYCLES :: "64 word \<Rightarrow> 64 word \<Rightarrow> 64 word" where
  "CYCLES F_CPU time_ns = ((F_CPU * time_ns) + NS_PER_SEC - 1) div NS_PER_SEC"

definition NANOSECONDS :: "64 word \<Rightarrow> 64 word \<Rightarrow> 64 word option" where
  "NANOSECONDS F_CPU cycles =
     (if F_CPU = 0 then None
      else Some ((cycles * NS_PER_SEC + F_CPU - 1) div F_CPU))"

section \<open>Palette index encoding (lines 142--160)\<close>

text \<open>
  The header does no bounds checking; an access outside the array and a division by zero
  are undefined behaviour in C. The model makes both a result of their own. A third
  result, \<open>IllFormed\<close>, stands for a template instantiation that the compiler rejects
  (a failed \<open>STATIC_ASSERT\<close>, a member that the pixel structure does not have).
\<close>

datatype error = OutOfBounds | DivideByZero | IllFormed

text \<open>
  \<open>_SET_PIXEL(array, index, bitsPerPixel, color)\<close>:
  \<open>array[index/(8/bitsPerPixel)] = (array[index/(8/bitsPerPixel)] &
  ~(((1<<bitsPerPixel)-1) << ((index * bitsPerPixel)%8))) | color << ((index * bitsPerPixel)%8)\<close>.
  The byte read is promoted to \<open>int\<close>, the expression is evaluated on \<open>int\<close> and the
  assignment to the \<open>uint8_t\<close> element keeps the low eight bits. The index is an
  expression of the caller's; it is a natural number here, as for the unsigned indices
  the header itself passes, whose product with \<open>bitsPerPixel\<close> has the right value
  modulo 8.
\<close>

definition SET_PIXEL :: "8 word list \<Rightarrow> nat \<Rightarrow> nat \<Rightarrow> int \<Rightarrow> error + 8 word list" where
  "SET_PIXEL array index bitsPerPixel color =
     (if bitsPerPixel = 0 \<or> 8 div bitsPerPixel = 0 then Inl DivideByZero
      else if length array \<le> index div (8 div bitsPerPixel) then Inl OutOfBounds
      else Inr (array[index div (8 div bitsPerPixel) :=
             word_of_int
               ((uint (array ! (index div (8 div bitsPerPixel)))
                   AND NOT (push_bit ((index * bitsPerPixel) mod 8) (push_bit bitsPerPixel 1 - 1)))
                OR push_bit ((index * bitsPerPixel) mod 8) color)]))"

text \<open>
  \<open>_GET_PIXEL(array, index, bitsPerPixel)\<close>:
  \<open>(array[index/(8/bitsPerPixel)] >> (index*bitsPerPixel)%8) & ((1<<bitsPerPixel)-1)\<close>.
\<close>

definition GET_PIXEL :: "8 word list \<Rightarrow> nat \<Rightarrow> nat \<Rightarrow> error + int" where
  "GET_PIXEL array index bitsPerPixel =
     (if bitsPerPixel = 0 \<or> 8 div bitsPerPixel = 0 then Inl DivideByZero
      else if length array \<le> index div (8 div bitsPerPixel) then Inl OutOfBounds
      else Inr (drop_bit ((index * bitsPerPixel) mod 8) (uint (array ! (index div (8 div bitsPerPixel))))
                AND (push_bit bitsPerPixel 1 - 1)))"

section \<open>The strip driver: configuration, pins and low-level macros\<close>

text \<open>
  The class \<open>avrBitbangLedStrip\<close> is a template; its parameters (\<open>FAB_TDEF\<close>, lines
  349--359) are the configuration of one driver. The model follows the AVR branch of the
  header (\<open>ARDUINO_ARCH_AVR\<close>), where \<open>int\<close> has 16 bits and \<open>uint16_t\<close> is
  \<open>unsigned int\<close>: arithmetic on a \<open>uint16_t\<close> and an \<open>int\<close> is done modulo 65536.
\<close>

datatype avrLedStripPort = PortA | PortB | PortC | PortD | PortE | PortF

datatype ledProtocol =
    ONE_PORT_BITBANG
  | TWO_PORT_SPLIT_BITBANG
  | TWO_PORT_INTLV_BITBANG
  | EIGHT_PORT_BITBANG
  | ONE_PORT_PWM
  | ONE_PORT_UART
  | SPI_BITBANG
  | SPI_HARDWARE

record config =
  high1 :: int
  low1 :: int
  high0 :: int
  low0 :: int
  minMsRefresh :: nat
  dataPortId :: avrLedStripPort
  dataPortPin :: nat
  clockPortId :: avrLedStripPort
  clockPortPin :: nat
  pixelClass :: pixelClass
  protocol :: ledProtocol

text \<open>
  What the driver does to the outside world is a list of events, in order: a pin set
  high or low, a whole port register written, a busy wait of some cycles, a wait of
  some milliseconds.
\<close>

datatype event =
    PinHigh avrLedStripPort nat
  | PinLow avrLedStripPort nat
  | PortWrite avrLedStripPort "8 word"
  | DelayCycles int
  | DelayMs nat

definition SET_PORT_HIGH :: "avrLedStripPort \<Rightarrow> nat \<Rightarrow> event list" where
  "SET_PORT_HIGH portId portPin = [PinHigh portId portPin]"

definition SET_PORT_LOW :: "avrLedStripPort \<Rightarrow> nat \<Rightarrow> event list" where
  "SET_PORT_LOW portId portPin = [PinLow portId portPin]"

definition FAB_PORT :: "avrLedStripPort \<Rightarrow> 8 word \<Rightarrow> event list" where
  "FAB_PORT portId val = [PortWrite portId val]"

text \<open>\<open>#define DELAY_CYCLES(count) if (count > 0) __builtin_avr_delay_cycles(count);\<close>\<close>

definition DELAY_CYCLES :: "int \<Rightarrow> event list" where
  "DELAY_CYCLES count = (if count > 0 then [DelayCycles count] else [])"

definition sbiCycles :: int where "sbiCycles = 2"
definition cbiCycles :: int where "cbiCycles = 2"

text \<open>
  A routine that may read outside its array returns \<open>error + 'a\<close>; one that may also
  loop forever returns an \<open>option\<close> of that, \<open>None\<close> standing for no return.
\<close>

definition read_at :: "'a list \<Rightarrow> nat \<Rightarrow> error + 'a" where
  "read_at array i = (if i < length array then Inr (array ! i) else Inl OutOfBounds)"

text \<open>A counted loop whose body emits events or fails: the events in order, or the first failure.\<close>

fun for_each :: "nat list \<Rightarrow> (nat \<Rightarrow> error + event list) \<Rightarrow> error + event list" where
  "for_each [] body = Inr []"
| "for_each (i # js) body =
     (case body i of
        Inl e \<Rightarrow> Inl e
      | Inr tr \<Rightarrow> (case for_each js body of Inl e \<Rightarrow> Inl e | Inr tr' \<Rightarrow> Inr (tr @ tr')))"

text \<open>\<open>for(int8_t b=7; b>=0; b--)\<close>: the bit positions of a byte, most significant first.\<close>

definition bit_positions :: "nat list" where
  "bit_positions = [7, 6, 5, 4, 3, 2, 1, 0]"

section \<open>Bit generation (lines 919--1281)\<close>

subsection \<open>One port\<close>

definition onePortBit :: "config \<Rightarrow> bool \<Rightarrow> event list" where
  "onePortBit cfg b =
     (if b then
        SET_PORT_HIGH (dataPortId cfg) (dataPortPin cfg) @ DELAY_CYCLES (high1 cfg - sbiCycles)
        @ SET_PORT_LOW (dataPortId cfg) (dataPortPin cfg) @ DELAY_CYCLES (low1 cfg - cbiCycles)
      else
        SET_PORT_HIGH (dataPortId cfg) (dataPortPin cfg) @ DELAY_CYCLES (high0 cfg - sbiCycles)
        @ SET_PORT_LOW (dataPortId cfg) (dataPortPin cfg) @ DELAY_CYCLES (low0 cfg - cbiCycles))"

text \<open>
  The inner loop, for one byte \<open>val\<close>; \<open>const bool bit = (val>>b) & 0x1\<close> is bit \<open>b\<close> of
  \<open>val\<close>.
\<close>

definition onePortByte :: "config \<Rightarrow> 8 word \<Rightarrow> event list" where
  "onePortByte cfg val = concat (map (\<lambda>b. onePortBit cfg (bit val b)) bit_positions)"

definition onePortSoftwareSendBytes :: "config \<Rightarrow> 16 word \<Rightarrow> 8 word list \<Rightarrow> error + event list" where
  "onePortSoftwareSendBytes cfg count array =
     for_each [0 ..< unat count] (\<lambda>c.
       case read_at array c of
         Inl e \<Rightarrow> Inl e
       | Inr val \<Rightarrow> Inr (onePortByte cfg val))"

subsection \<open>Clocked two-wire (SPI) protocol\<close>

text \<open>
  \<open>for(uint32_t c = 0; c < 8 * count; c++)\<close>: the product \<open>8 * count\<close> is computed in
  \<open>unsigned int\<close>, modulo 65536, before the comparison with the 32-bit counter.
\<close>

definition spiSoftwareSendFrame :: "config \<Rightarrow> 16 word \<Rightarrow> bool \<Rightarrow> event list" where
  "spiSoftwareSendFrame cfg count high =
     (if high then SET_PORT_HIGH (dataPortId cfg) (dataPortPin cfg)
      else SET_PORT_LOW (dataPortId cfg) (dataPortPin cfg))
     @ concat (replicate ((8 * unat count) mod 65536)
         (SET_PORT_LOW (clockPortId cfg) (clockPortPin cfg)
          @ SET_PORT_HIGH (clockPortId cfg) (clockPortPin cfg)))"

definition spiBit :: "config \<Rightarrow> bool \<Rightarrow> event list" where
  "spiBit cfg b =
     SET_PORT_LOW (clockPortId cfg) (clockPortPin cfg)
     @ (if b then SET_PORT_HIGH (dataPortId cfg) (dataPortPin cfg)
        else SET_PORT_LOW (dataPortId cfg) (dataPortPin cfg))
     @ SET_PORT_HIGH (clockPortId cfg) (clockPortPin cfg)"

definition spiByte :: "config \<Rightarrow> 8 word \<Rightarrow> event list" where
  "spiByte cfg val = concat (map (\<lambda>b. spiBit cfg (bit val b)) bit_positions)"

text \<open>The test \<open>(stripBPP >= 4) && ((cnt % 3) == 0)\<close> guards an empty block.\<close>

definition spiSoftwareSendBytes :: "config \<Rightarrow> 16 word \<Rightarrow> 8 word list \<Rightarrow> error + event list" where
  "spiSoftwareSendBytes cfg count array =
     for_each [0 ..< unat count] (\<lambda>cnt.
       case read_at array cnt of
         Inl e \<Rightarrow> Inl e
       | Inr val \<Rightarrow> Inr (spiByte cfg val))"

subsection \<open>Two ports\<close>

text \<open>One bit period on both lines, for the bit of the data line and the bit of the clock line.\<close>

definition twoPortBit :: "config \<Rightarrow> bool \<Rightarrow> bool \<Rightarrow> event list" where
  "twoPortBit cfg isbitDhigh isbitChigh =
     (if isbitDhigh then SET_PORT_HIGH (dataPortId cfg) (dataPortPin cfg) else [])
     @ (if isbitChigh then SET_PORT_HIGH (clockPortId cfg) (clockPortPin cfg) else [])
     @ (if \<not> isbitDhigh then
          SET_PORT_HIGH (dataPortId cfg) (dataPortPin cfg) @ DELAY_CYCLES (high0 cfg - sbiCycles)
          @ SET_PORT_LOW (dataPortId cfg) (dataPortPin cfg)
        else [])
     @ (if \<not> isbitChigh then
          SET_PORT_HIGH (clockPortId cfg) (clockPortPin cfg) @ DELAY_CYCLES (high0 cfg - sbiCycles)
          @ SET_PORT_LOW (clockPortId cfg) (clockPortPin cfg)
        else [])
     @ DELAY_CYCLES (high1 cfg - 2 * sbiCycles)
     @ SET_PORT_LOW (dataPortId cfg) (dataPortPin cfg)
     @ SET_PORT_LOW (clockPortId cfg) (clockPortPin cfg)
     @ DELAY_CYCLES (low1 cfg - 2 * cbiCycles)"

text \<open>
  The offset of the byte that goes to the clock line: \<open>array[pos + blockSize]\<close> in split
  mode, \<open>array[pos + stripBPP]\<close> otherwise; the sum is a 16-bit unsigned value.
\<close>

definition twoPortOther :: "config \<Rightarrow> nat \<Rightarrow> nat \<Rightarrow> nat" where
  "twoPortOther cfg blockSize pos =
     (if protocol cfg = TWO_PORT_SPLIT_BITBANG then (pos + blockSize) mod 65536
      else (pos + stripBPP (pixelClass cfg)) mod 65536)"

text \<open>The loop over the bits of \<open>array[pos]\<close>; both bytes are read again for every bit.\<close>

definition twoPortByte :: "config \<Rightarrow> 8 word list \<Rightarrow> nat \<Rightarrow> nat \<Rightarrow> error + event list" where
  "twoPortByte cfg array blockSize pos =
     for_each bit_positions (\<lambda>b.
       case read_at array pos of
         Inl e \<Rightarrow> Inl e
       | Inr d \<Rightarrow>
           (case read_at array (twoPortOther cfg blockSize pos) of
              Inl e \<Rightarrow> Inl e
            | Inr c \<Rightarrow> Inr (twoPortBit cfg (bit d b) (bit c b))))"

text \<open>\<open>for(uint16_t pos = pix; pos < pix+stripBPP; pos++)\<close>, the bound modulo 65536.\<close>

definition twoPortPixel :: "config \<Rightarrow> 8 word list \<Rightarrow> nat \<Rightarrow> nat \<Rightarrow> error + event list" where
  "twoPortPixel cfg array blockSize pix =
     for_each [pix ..< (pix + stripBPP (pixelClass cfg)) mod 65536]
       (twoPortByte cfg array blockSize)"

text \<open>\<open>const uint8_t increment = stride * stripBPP\<close>, the stride 1 in split mode and 2 otherwise.\<close>

definition twoPortIncrement :: "config \<Rightarrow> nat" where
  "twoPortIncrement cfg =
     ((if protocol cfg = TWO_PORT_SPLIT_BITBANG then 1 else 2) * stripBPP (pixelClass cfg)) mod 256"

text \<open>
  \<open>for(uint16_t pix = 0; pix < blockSize; pix += increment)\<close>. The counter wraps around at
  65536, so the loop need not end; the events so far are the last argument.
\<close>

partial_function (option) twoPortLoop ::
  "config \<Rightarrow> 8 word list \<Rightarrow> nat \<Rightarrow> nat \<Rightarrow> event list \<Rightarrow> (error + event list) option" where
  "twoPortLoop cfg array blockSize pix acc =
     (if pix < blockSize then
        (case twoPortPixel cfg array blockSize pix of
           Inl e \<Rightarrow> Some (Inl e)
         | Inr tr \<Rightarrow>
             twoPortLoop cfg array blockSize ((pix + twoPortIncrement cfg) mod 65536) (acc @ tr))
      else Some (Inr acc))"

declare twoPortLoop.simps [code]

definition twoPortSoftwareSendBytes ::
  "config \<Rightarrow> 16 word \<Rightarrow> 8 word list \<Rightarrow> (error + event list) option" where
  "twoPortSoftwareSendBytes cfg count array =
     twoPortLoop cfg array
       (if protocol cfg = TWO_PORT_SPLIT_BITBANG then unat count div 2 else unat count) 0 []"

subsection \<open>Eight ports\<close>

text \<open>
  The routine keeps one byte per output line in \<open>r0\<close> .. \<open>r7\<close> (the list \<open>regs\<close>) and the
  mask \<open>onMask\<close> of the lines loaded so far. In the iteration for bit position \<open>b\<close> the
  \<open>switch\<close> first loads line \<open>b\<close> (case 0 when \<open>0 == dataPortPin\<close>, case \<open>b\<close> when
  \<open>b >= dataPortPin && b <= clockPortPin\<close>) from \<open>array[c + (b - dataPortPin) * blockSize]\<close>,
  then tests, for every line \<open>j\<close>, the bit of \<open>rj\<close> that is \<open>(j - b) mod 8\<close> places below
  the top: in case 0 the masks are \<open>0x80, 0x40, .., 0x01\<close> for \<open>r0 .. r7\<close>, and each
  further case rotates them by one line.
\<close>

definition eightPortBitmask :: "8 word list \<Rightarrow> nat \<Rightarrow> 8 word" where
  "eightPortBitmask regs b =
     foldr (\<lambda>j m. if bit (regs ! j) (7 - ((j + 8 - b) mod 8)) then m OR push_bit j 1 else m)
       [0 ..< 8] 0"

definition eightPortStep ::
  "config \<Rightarrow> 8 word list \<Rightarrow> nat \<Rightarrow> nat \<Rightarrow> nat \<Rightarrow> 8 word list \<times> 8 word
     \<Rightarrow> error + (event list \<times> (8 word list \<times> 8 word))" where
  "eightPortStep cfg array blockSize c b s =
     (case (if (if b = 0 then dataPortPin cfg = 0
                else dataPortPin cfg \<le> b \<and> b \<le> clockPortPin cfg)
            then (case read_at array ((c + (b - dataPortPin cfg) * blockSize) mod 65536) of
                    Inl e \<Rightarrow> Inl e
                  | Inr v \<Rightarrow> Inr ((fst s)[b := v], snd s OR push_bit b 1))
            else Inr s) of
        Inl e \<Rightarrow> Inl e
      | Inr s' \<Rightarrow>
          Inr (FAB_PORT (dataPortId cfg) (snd s')
               @ DELAY_CYCLES (high0 cfg - sbiCycles)
               @ FAB_PORT (dataPortId cfg) (eightPortBitmask (fst s') b)
               @ DELAY_CYCLES (high1 cfg - high0 cfg + sbiCycles)
               @ FAB_PORT (dataPortId cfg) 0
               @ DELAY_CYCLES (low0 cfg - cbiCycles - 20),
               s'))"

fun eightPortRun ::
  "config \<Rightarrow> 8 word list \<Rightarrow> nat \<Rightarrow> (nat \<times> nat) list \<Rightarrow> 8 word list \<times> 8 word
     \<Rightarrow> error + event list" where
  "eightPortRun cfg array blockSize [] s = Inr []"
| "eightPortRun cfg array blockSize (cb # rest) s =
     (case eightPortStep cfg array blockSize (fst cb) (snd cb) s of
        Inl e \<Rightarrow> Inl e
      | Inr r \<Rightarrow>
          (case eightPortRun cfg array blockSize rest (snd r) of
             Inl e \<Rightarrow> Inl e
           | Inr tr' \<Rightarrow> Inr (fst r @ tr')))"

text \<open>
  \<open>blockSize = count / (clockPortPin - dataPortPin + 1) / stripBPP * stripBPP\<close>, the
  divisor converted to \<open>unsigned int\<close>. The loops run \<open>c\<close> from 0 to \<open>blockSize - 1\<close> and,
  inside, \<open>b\<close> from 7 down to 0.
\<close>

definition eightPortSoftwareSendBytes :: "config \<Rightarrow> 16 word \<Rightarrow> 8 word list \<Rightarrow> error + event list" where
  "eightPortSoftwareSendBytes cfg count array =
     (let lines = nat ((int (clockPortPin cfg) - int (dataPortPin cfg) + 1) mod 65536) in
      if lines = 0 then Inl DivideByZero
      else
        (let blockSize = unat count div lines div stripBPP (pixelClass cfg) * stripBPP (pixelClass cfg)
         in eightPortRun cfg array blockSize (List.product [0 ..< blockSize] bit_positions)
              (replicate 8 0, 0)))"

subsection \<open>Dispatch on the protocol\<close>

text \<open>
  The \<open>switch\<close> of \<open>sendBytes\<close> has five cases and no default: for \<open>ONE_PORT_PWM\<close>,
  \<open>ONE_PORT_UART\<close> and \<open>SPI_HARDWARE\<close> no statement is executed.
\<close>

definition sendBytes :: "config \<Rightarrow> 16 word \<Rightarrow> 8 word list \<Rightarrow> (error + event list) option" where
  "sendBytes cfg count array =
     (case protocol cfg of
        ONE_PORT_BITBANG \<Rightarrow> Some (onePortSoftwareSendBytes cfg count array)
      | TWO_PORT_SPLIT_BITBANG \<Rightarrow> twoPortSoftwareSendBytes cfg count array
      | TWO_PORT_INTLV_BITBANG \<Rightarrow> twoPortSoftwareSendBytes cfg count array
      | EIGHT_PORT_BITBANG \<Rightarrow> Some (eightPortSoftwareSendBytes cfg count array)
      | SPI_BITBANG \<Rightarrow> Some (spiSoftwareSendBytes cfg count array)
      | _ \<Rightarrow> Some (Inr []))"

section \<open>Session state, \<open>begin\<close> and \<open>end\<close> (lines 743--747 and 1320--1348)\<close>

text \<open>
  The two static members of the class, the status register of the processor, and the
  events emitted so far.
\<close>

record state =
  pixelsDisplayed :: "16 word"
  oldSREG :: "8 word"
  SREG :: "8 word"
  trace :: "event list"

definition emit :: "event list \<Rightarrow> state \<Rightarrow> state" where
  "emit tr st = st\<lparr>trace := trace st @ tr\<rparr>"

text \<open>
  The static initialisers: \<open>pixelsDisplayed = 0\<close> and \<open>oldSREG = SREG\<close>.
\<close>

definition initial_state :: "8 word \<Rightarrow> state" where
  "initial_state sreg = \<lparr>pixelsDisplayed = 0, oldSREG = sreg, SREG = sreg, trace = []\<rparr>"

text \<open>
  \<open>begin()\<close>. \<open>__builtin_avr_cli()\<close> clears the interrupt flag, bit 7 of \<open>SREG\<close>.
\<close>

definition begin_op :: "config \<Rightarrow> state \<Rightarrow> state" where
  "begin_op cfg st =
     (if protocol cfg = SPI_BITBANG then emit (spiSoftwareSendFrame cfg 4 False) st
      else (emit [DelayMs (minMsRefresh cfg)] st)\<lparr>oldSREG := SREG st, SREG := SREG st AND 0x7F\<rparr>)"

text \<open>
  \<open>end()\<close>: \<open>spiSoftwareSendFrame(++pixelsDisplayed/2, true); pixelsDisplayed = 0;\<close>.
  The increment is done on the \<open>uint16_t\<close> counter itself, before the division;
  \<open>end_frame_count\<close> is the value of the first argument.
\<close>

definition end_frame_count :: "state \<Rightarrow> 16 word" where
  "end_frame_count st = (pixelsDisplayed st + 1) div 2"

definition end_op :: "config \<Rightarrow> state \<Rightarrow> state" where
  "end_op cfg st =
     (if protocol cfg = SPI_BITBANG then
        (emit (spiSoftwareSendFrame cfg (end_frame_count st) True) st)\<lparr>pixelsDisplayed := 0\<rparr>
      else st\<lparr>SREG := oldSREG st\<rparr>)"

section \<open>Pixel dispatch (lines 1350--1454)\<close>

text \<open>
  A pixel is the list of the bytes of its structure, in memory order; an array of pixels
  is the list of the bytes of all of them. The members \<open>r\<close>, \<open>g\<close>, \<open>b\<close> (and \<open>w\<close>, which
  \<open>hbgr\<close> has in the union of its first byte) are at these offsets.
\<close>

fun r_off :: "pixelClass \<Rightarrow> nat" where
  "r_off rgb = 0" | "r_off grb = 1" | "r_off bgr = 2"
| "r_off rgbw = 0" | "r_off grbw = 1" | "r_off hbgr = 3"

fun g_off :: "pixelClass \<Rightarrow> nat" where
  "g_off rgb = 1" | "g_off grb = 0" | "g_off bgr = 1"
| "g_off rgbw = 1" | "g_off grbw = 0" | "g_off hbgr = 2"

fun b_off :: "pixelClass \<Rightarrow> nat" where
  "b_off rgb = 2" | "b_off grb = 2" | "b_off bgr = 0"
| "b_off rgbw = 2" | "b_off grbw = 2" | "b_off hbgr = 1"

fun w_off :: "pixelClass \<Rightarrow> nat option" where
  "w_off rgbw = Some 3" | "w_off grbw = Some 3" | "w_off hbgr = Some 0"
| "w_off _ = None"

text \<open>Running a step that returns events, and appending them to the trace.\<close>

definition transmit :: "(error + event list) option \<Rightarrow> state \<Rightarrow> (error + state) option" where
  "transmit r st =
     (case r of
        None \<Rightarrow> None
      | Some (Inl e) \<Rightarrow> Some (Inl e)
      | Some (Inr tr) \<Rightarrow> Some (Inr (emit tr st)))"

subsection \<open>Typed pixels\<close>

text \<open>
  \<open>pixelClass p = {}\<close>, then \<open>ap->f3 = 0x00\<close> when the native type has \<open>PT_XXXW\<close> and
  \<open>ap->f0 = 0xFF\<close> when it has \<open>PT_BXXX\<close> (\<open>ap\<close> views \<open>p\<close> as four bytes \<open>f0 .. f3\<close>).
\<close>

definition native_init :: "pixelClass \<Rightarrow> 8 word list" where
  "native_init N =
     (let p = replicate (sizeof_pixel N) 0;
          p = (if pixel_type N AND PT_XXXW \<noteq> 0 then p[3 := 0x00] else p);
          p = (if pixel_type N AND PT_BXXX \<noteq> 0 then p[0 := 0xFF] else p)
      in p)"

text \<open>
  The body of the conversion loop, for the source pixel \<open>src\<close> of class \<open>F\<close>:
  \<open>p.r = array[i].r; p.g = array[i].g; p.b = array[i].b;\<close> then \<open>ap->f3 = aa->f3\<close> when both
  types have \<open>PT_XXXW\<close> and \<open>ap->f0 = aa->f0\<close> when both have \<open>PT_BXXX\<close>.
\<close>

definition convert_pixel :: "pixelClass \<Rightarrow> pixelClass \<Rightarrow> 8 word list \<Rightarrow> 8 word list \<Rightarrow> 8 word list" where
  "convert_pixel N F p src =
     (let p = p[r_off N := src ! r_off F];
          p = p[g_off N := src ! g_off F];
          p = p[b_off N := src ! b_off F];
          p = (if pixel_type N AND pixel_type F AND PT_XXXW \<noteq> 0 then p[3 := src ! 3] else p);
          p = (if pixel_type N AND pixel_type F AND PT_BXXX \<noteq> 0 then p[0 := src ! 0] else p)
      in p)"

text \<open>
  \<open>for (uint16_t i = 0; i < numPixels; i++) { ...; sendBytes(stripBPP, (uint8_t *) &p); }\<close>.
  The pixel \<open>array[i]\<close> is the bytes from \<open>i * sizeof(pixelClassF)\<close> on.
\<close>

fun convert_loop ::
  "config \<Rightarrow> pixelClass \<Rightarrow> 8 word list \<Rightarrow> nat list \<Rightarrow> 8 word list \<Rightarrow> state
     \<Rightarrow> (error + state) option" where
  "convert_loop cfg F array [] p st = Some (Inr st)"
| "convert_loop cfg F array (i # js) p st =
     (if length array < (i + 1) * sizeof_pixel F then Some (Inl OutOfBounds)
      else
        (let p' = convert_pixel (pixelClass cfg) F p
                    (take (sizeof_pixel F) (drop (i * sizeof_pixel F) array))
         in case transmit (sendBytes cfg (of_nat (stripBPP (pixelClass cfg))) p') st of
              None \<Rightarrow> None
            | Some (Inl e) \<Rightarrow> Some (Inl e)
            | Some (Inr st') \<Rightarrow> convert_loop cfg F array js p' st'))"

text \<open>
  \<open>send<pixelClassF>(numPixels, array)\<close>. The byte count \<open>numPixels * stripBPP\<close> is passed as
  a \<open>uint16_t\<close>.
\<close>

definition send :: "config \<Rightarrow> pixelClass \<Rightarrow> 16 word \<Rightarrow> 8 word list \<Rightarrow> state \<Rightarrow> (error + state) option" where
  "send cfg F numPixels array st =
     (case (if pixel_type F = pixel_type (pixelClass cfg) then
              transmit (sendBytes cfg (numPixels * of_nat (stripBPP (pixelClass cfg))) array) st
            else
              convert_loop cfg F array [0 ..< unat numPixels] (native_init (pixelClass cfg)) st) of
        None \<Rightarrow> None
      | Some (Inl e) \<Rightarrow> Some (Inl e)
      | Some (Inr st') \<Rightarrow>
          Some (Inr (if protocol cfg = SPI_BITBANG
                     then st'\<lparr>pixelsDisplayed := pixelsDisplayed st' + numPixels\<rparr>
                     else st')))"

subsection \<open>Packed 16-bit pixels\<close>

text \<open>
  \<open>send(const uint16_t numPixels, const uint16_t * array, const uint8_t brightness)\<close>,
  lines 1390--1415. The parameter \<open>brightness\<close> is declared \<open>const\<close> (line 1395) and the
  body assigns to it: \<open>if (brightness == 0) { brightness = 1; }\<close> (lines 1405--1407). An
  assignment to a \<open>const\<close> object is ill-formed whatever the template arguments are, so no
  instantiation of the class can call this overload: the build stops there. (The body
  also assigns \<open>p.w\<close> under the test \<open>pixelClass::type && PT_XXXW\<close>, which is ill-formed
  again for the three pixel structures without a member \<open>w\<close>.) The model gives the call
  the result that stands for a rejected instantiation; none of its statements runs.
\<close>

definition send16 :: "config \<Rightarrow> 16 word \<Rightarrow> 16 word list \<Rightarrow> 8 word \<Rightarrow> state \<Rightarrow> (error + state) option" where
  "send16 cfg numPixels array brightness st = Some (Inl IllFormed)"

subsection \<open>Remapped and palette pixels\<close>

text \<open>
  \<open>send<bitsPerPixel, arrayClassF, paletteClassF, mapIntF>(count, array, palette, map)\<close>,
  for \<open>arrayClassF = uint8_t\<close>: \<open>array\<close> is an array of bytes, as \<open>GET_PIXEL\<close> needs
  it (the macro is compiled whatever \<open>palette\<close> is at run time, so an array of pixel
  structures does not build). \<open>mapBits\<close> is the width of \<open>mapIntF\<close> (8 or 16),
  \<open>iMax = (mapIntF) count\<close>. In each iteration \<open>ri\<close> is \<open>map[i]\<close> or \<open>i\<close> (the argument
  \<open>map\<close> is called \<open>remap\<close> here). With a palette the colour index
  \<open>ci = GET_PIXEL(array, ri, bitsPerPixel)\<close> is computed in a block of its own and not
  used, and the pixel sent is \<open>palette[i]\<close>, the bytes of the palette from
  \<open>i * sizeof(paletteClassF)\<close> on. With \<open>palette == NULL\<close> the pixel sent is
  \<open>&array[ri]\<close>, the bytes of the byte array from offset \<open>ri\<close> on.
\<close>

fun send_palette_loop ::
  "config \<Rightarrow> nat \<Rightarrow> 8 word list \<Rightarrow> 8 word list option \<Rightarrow> pixelClass \<Rightarrow> nat list option
     \<Rightarrow> nat list \<Rightarrow> state \<Rightarrow> (error + state) option" where
  "send_palette_loop cfg bitsPerPixel array palette F remap [] st = Some (Inr st)"
| "send_palette_loop cfg bitsPerPixel array palette F remap (i # js) st =
     (case (case remap of None \<Rightarrow> Inr i | Some m \<Rightarrow> read_at m i) of
        Inl e \<Rightarrow> Some (Inl e)
      | Inr ri \<Rightarrow>
          (case (case palette of
                   None \<Rightarrow> Inr (drop ri array)
                 | Some pal \<Rightarrow>
                     (case GET_PIXEL array ri bitsPerPixel of
                        Inl e \<Rightarrow> Inl e
                      | Inr ci \<Rightarrow> Inr (drop (i * sizeof_pixel F) pal))) of
             Inl e \<Rightarrow> Some (Inl e)
           | Inr pixel \<Rightarrow>
               (case send cfg F 1 pixel st of
                  None \<Rightarrow> None
                | Some (Inl e) \<Rightarrow> Some (Inl e)
                | Some (Inr st') \<Rightarrow>
                    send_palette_loop cfg bitsPerPixel array palette F remap js st')))"

definition send_palette ::
  "config \<Rightarrow> nat \<Rightarrow> nat \<Rightarrow> 16 word \<Rightarrow> 8 word list \<Rightarrow> 8 word list option \<Rightarrow> pixelClass
     \<Rightarrow> nat list option \<Rightarrow> state \<Rightarrow> (error + state) option" where
  "send_palette cfg bitsPerPixel mapBits count array palette F remap st =
     (if bitsPerPixel \<notin> {1, 2, 4, 8} then Some (Inl IllFormed)
      else send_palette_loop cfg bitsPerPixel array palette F remap
             [0 ..< unat count mod 2 ^ mapBits] st)"

subsection \<open>Sequences of calls\<close>

text \<open>
  The calls that a program can make: \<open>begin()\<close>, \<open>end()\<close>, the typed \<open>send\<close> and the
  remapped or palette \<open>send\<close>. (The 16-bit \<open>send\<close> is not among them: a program with
  such a call does not build.)
\<close>

datatype call =
    Begin
  | End
  | Send pixelClass "16 word" "8 word list"
  | SendPalette nat nat "16 word" "8 word list" "8 word list option" pixelClass "nat list option"

fun exec :: "config \<Rightarrow> call \<Rightarrow> state \<Rightarrow> (error + state) option" where
  "exec cfg Begin st = Some (Inr (begin_op cfg st))"
| "exec cfg End st = Some (Inr (end_op cfg st))"
| "exec cfg (Send F numPixels array) st = send cfg F numPixels array st"
| "exec cfg (SendPalette bitsPerPixel mapBits count array palette F remap) st =
     send_palette cfg bitsPerPixel mapBits count array palette F remap st"

fun run :: "config \<Rightarrow> call list \<Rightarrow> state \<Rightarrow> (error + state) option" where
  "run cfg [] st = Some (Inr st)"
| "run cfg (c # cs) st =
     (case exec cfg c st of
        None \<Rightarrow> None
      | Some (Inl e) \<Rightarrow> Some (Inl e)
      | Some (Inr st') \<Rightarrow> run cfg cs st')"

section \<open>Model presets (lines 1880--2095)\<close>

text \<open>
  The preset classes fix the template parameters for a chip; the timings are
  \<open>CYCLES\<close> of the nanosecond figures of the header (\<open>CYCLES(500)\<close>, \<open>CYCLES(125)\<close>,
  \<open>CYCLES(125)\<close>, \<open>CYCLES(188)\<close> for the WS2812B, \<open>CYCLES(0)\<close> for the APA-102), for the
  clock frequency given as first argument.
\<close>

definition ws2812b_timing :: "64 word \<Rightarrow> ledProtocol \<Rightarrow> avrLedStripPort \<Rightarrow> nat \<Rightarrow> avrLedStripPort \<Rightarrow> nat \<Rightarrow> config" where
  "ws2812b_timing F_CPU proto dId dPin cId cPin =
     \<lparr>high1 = uint (CYCLES F_CPU 500), low1 = uint (CYCLES F_CPU 125),
      high0 = uint (CYCLES F_CPU 125), low0 = uint (CYCLES F_CPU 188),
      minMsRefresh = 20, dataPortId = dId, dataPortPin = dPin,
      clockPortId = cId, clockPortPin = cPin, pixelClass = grb, protocol = proto\<rparr>"

definition ws2812b :: "64 word \<Rightarrow> avrLedStripPort \<Rightarrow> nat \<Rightarrow> config" where
  "ws2812b F_CPU dId dPin = ws2812b_timing F_CPU ONE_PORT_BITBANG dId dPin PortA 0"

definition ws2812bs :: "64 word \<Rightarrow> avrLedStripPort \<Rightarrow> nat \<Rightarrow> avrLedStripPort \<Rightarrow> nat \<Rightarrow> config" where
  "ws2812bs F_CPU = ws2812b_timing F_CPU TWO_PORT_SPLIT_BITBANG"

definition ws2812bi :: "64 word \<Rightarrow> avrLedStripPort \<Rightarrow> nat \<Rightarrow> avrLedStripPort \<Rightarrow> nat \<Rightarrow> config" where
  "ws2812bi F_CPU = ws2812b_timing F_CPU TWO_PORT_INTLV_BITBANG"

definition apa102 :: "64 word \<Rightarrow> avrLedStripPort \<Rightarrow> nat \<Rightarrow> avrLedStripPort \<Rightarrow> nat \<Rightarrow> config" where
  "apa102 F_CPU dId dPin cId cPin =
     \<lparr>high1 = uint (CYCLES F_CPU 0), low1 = uint (CYCLES F_CPU 0),
      high0 = uint (CYCLES F_CPU 0), low0 = uint (CYCLES F_CPU 0),
      minMsRefresh = 84, dataPortId = dId, dataPortPin = dPin,
      clockPortId = cId, clockPortPin = cPin, pixelClass = hbgr, protocol = SPI_BITBANG\<rparr>"

section \<open>What the two-port routine is to transmit\<close>

text \<open>
  The statements about the two-port routine compare what each line carries with the
  bytes that the specification gives to that line.

  What a line carries is read off the events as a strip on that line reads it: by the
  width of the high pulses. \<open>pulses p n s tr\<close> is the list of the widths, in cycles,
  of the high pulses on pin \<open>n\<close> of port \<open>p\<close> in the events \<open>tr\<close>; \<open>s\<close> is \<open>None\<close> while
  the line is low and holds the cycles since the rising edge while it is high. Setting
  a pin takes \<open>sbiCycles\<close>, clearing one \<open>cbiCycles\<close>, a busy wait its count (the figures
  the routines themselves subtract from their waits); a pulse ends with the instruction
  that clears the pin. The bit-bang routines write no whole port and do not wait for
  milliseconds, and those two events are passed over. A strip takes a pulse for a 1
  when it is wider than a threshold \<open>t\<close>.
\<close>

fun pulses :: "avrLedStripPort \<Rightarrow> nat \<Rightarrow> int option \<Rightarrow> event list \<Rightarrow> int list" where
  "pulses p n s [] = []"
| "pulses p n s (PinHigh q m # tr) =
     (if q = p \<and> m = n
      then pulses p n (Some (case s of None \<Rightarrow> 0 | Some w \<Rightarrow> w + sbiCycles)) tr
      else pulses p n (map_option (\<lambda>w. w + sbiCycles) s) tr)"
| "pulses p n s (PinLow q m # tr) =
     (if q = p \<and> m = n
      then (case s of None \<Rightarrow> pulses p n None tr
                    | Some w \<Rightarrow> (w + cbiCycles) # pulses p n None tr)
      else pulses p n (map_option (\<lambda>w. w + cbiCycles) s) tr)"
| "pulses p n s (DelayCycles c # tr) = pulses p n (map_option (\<lambda>w. w + c) s) tr"
| "pulses p n s (PortWrite q v # tr) = pulses p n s tr"
| "pulses p n s (DelayMs k # tr) = pulses p n s tr"

definition received :: "int \<Rightarrow> avrLedStripPort \<Rightarrow> nat \<Rightarrow> event list \<Rightarrow> bool list" where
  "received t p n tr = map (\<lambda>w. t < w) (pulses p n None tr)"

text \<open>The bits of a list of bytes, each byte most significant bit first.\<close>

definition byte_bits :: "8 word list \<Rightarrow> bool list" where
  "byte_bits bytes = concat (map (\<lambda>v. map (bit v) bit_positions) bytes)"

text \<open>
  The bytes for each line are given by two lists of array indices. In split mode the
  data line gets the first half of the array and the clock line the second half. In
  interleaved mode the data line gets the pixels of even index and the clock line the
  pixels of odd index, a pixel being as many bytes as its structure has
  (\<open>sizeof_pixel\<close>). \<open>evenBlocks b n\<close> and \<open>oddBlocks b n\<close> are the indices below \<open>n\<close> in
  the blocks of \<open>b\<close> indices of even and of odd number.
\<close>

definition evenBlocks :: "nat \<Rightarrow> nat \<Rightarrow> nat list" where
  "evenBlocks b n = concat (map (\<lambda>k. [2 * k * b ..< (2 * k + 1) * b]) [0 ..< n div (2 * b)])"

definition oddBlocks :: "nat \<Rightarrow> nat \<Rightarrow> nat list" where
  "oddBlocks b n = concat (map (\<lambda>k. [(2 * k + 1) * b ..< (2 * k + 2) * b]) [0 ..< n div (2 * b)])"

definition dataIndices :: "config \<Rightarrow> nat \<Rightarrow> nat list" where
  "dataIndices cfg n =
     (if protocol cfg = TWO_PORT_SPLIT_BITBANG then [0 ..< n div 2]
      else evenBlocks (sizeof_pixel (pixelClass cfg)) n)"

definition clockIndices :: "config \<Rightarrow> nat \<Rightarrow> nat list" where
  "clockIndices cfg n =
     (if protocol cfg = TWO_PORT_SPLIT_BITBANG then [n div 2 ..< n]
      else oddBlocks (sizeof_pixel (pixelClass cfg)) n)"

text \<open>
  One byte per line at a time, as the two innermost loops of the routine emit them: the
  eight bit periods of a pair of bytes, and the byte pairs of two lists of bytes.
\<close>

definition twoPortBytePair :: "config \<Rightarrow> 8 word \<Rightarrow> 8 word \<Rightarrow> event list" where
  "twoPortBytePair cfg d c = concat (map (\<lambda>b. twoPortBit cfg (bit d b) (bit c b)) bit_positions)"

definition twoPortStream :: "config \<Rightarrow> 8 word list \<Rightarrow> 8 word list \<Rightarrow> event list" where
  "twoPortStream cfg ds cs = concat (map (\<lambda>dc. twoPortBytePair cfg (fst dc) (snd dc)) (zip ds cs))"

section \<open>Results\<close>

subsection \<open>Bytes per pixel\<close>

lemma pixel_type_hbgr: "pixel_type hbgr = 0x82"
  by (simp add: PT_BGR_def PT_BXXX_def)

text \<open>
  Claim C3. The bytes-per-pixel constant should be 4 for every format with an extra
  channel, the brightness-prefixed \<open>hbgr\<close> in particular. The macro tests bit 0 of the tag
  only (the operator precedence noted at its definition), so for \<open>hbgr\<close>, whose structure
  has four bytes and whose tag is \<open>PT_BGR | PT_BXXX\<close>, the constant is 3.
\<close>

theorem stripBPP_hbgr_is_3:
  "stripBPP hbgr = 3 \<and> sizeof_pixel hbgr = 4 \<and> pixel_type hbgr AND PT_BXXX \<noteq> 0"
  by (simp add: stripBPP_def PT_BYTES_PER_PIXEL_def PT_XBYT_def PT_BGR_def PT_BXXX_def)

text \<open>For the other five formats the constant is the size of the structure.\<close>

lemma stripBPP_other_formats:
  "pc \<noteq> hbgr \<Longrightarrow> stripBPP pc = sizeof_pixel pc"
  by (cases pc)
     (simp_all add: stripBPP_def PT_BYTES_PER_PIXEL_def PT_XBYT_def PT_RGB_def PT_GRB_def
        PT_BGR_def PT_XXXW_def)

lemma stripBPP_values:
  "stripBPP rgb = 3" "stripBPP grb = 3" "stripBPP bgr = 3"
  "stripBPP rgbw = 4" "stripBPP grbw = 4" "stripBPP hbgr = 3"
  by (simp_all add: stripBPP_def PT_BYTES_PER_PIXEL_def PT_XBYT_def PT_RGB_def PT_GRB_def
        PT_BGR_def PT_XXXW_def PT_BXXX_def)

subsection \<open>Palette index round trip\<close>

lemma shift_fits:
  assumes "bpp \<in> {1, 2, 4, 8}"
  shows "(i * bpp) mod 8 + bpp \<le> (8::nat)"
  using assms by auto presburger+

lemma bit_below_bound:
  fixes color :: int
  assumes "0 \<le> color" "color < 2 ^ bpp" "bit color n"
  shows "n < bpp"
  using assms by (metis bit_take_bit_iff take_bit_int_eq_self)

lemma field_get:
  fixes x :: "8 word" and color :: int
  assumes "sh + bpp \<le> 8" "0 \<le> color" "color < 2 ^ bpp"
  shows "drop_bit sh (uint (word_of_int
            ((uint x AND NOT (push_bit sh (mask bpp))) OR push_bit sh color) :: 8 word))
         AND mask bpp = color"
proof (rule bit_eqI)
  fix n
  have c: "bit color n \<Longrightarrow> n < bpp"
    using assms(2,3) by (rule bit_below_bound)
  show "bit (drop_bit sh (uint (word_of_int
            ((uint x AND NOT (push_bit sh (mask bpp))) OR push_bit sh color) :: 8 word))
         AND mask bpp) n = bit color n"
    using assms(1) c by (auto simp add: bit_simps)
qed

lemma field_frame:
  fixes x :: "8 word" and color :: int
  assumes "0 \<le> color" "color < 2 ^ bpp" "\<not> (sh \<le> b \<and> b < sh + bpp)"
  shows "bit (word_of_int
            ((uint x AND NOT (push_bit sh (mask bpp))) OR push_bit sh color) :: 8 word) b
         = bit x b"
proof -
  have c: "bit color (b - sh) \<Longrightarrow> b - sh < bpp"
    using assms(1,2) by (rule bit_below_bound)
  show ?thesis
    using assms(3) c by (auto simp add: bit_simps dest: bit_imp_le_length)
qed

text \<open>
  Claim C5. For \<open>bitsPerPixel\<close> in \<open>{1,2,4,8}\<close>, a colour index below \<open>2^bitsPerPixel\<close> and a
  position whose byte lies in the buffer, \<open>SET_PIXEL\<close> succeeds, \<open>GET_PIXEL\<close> at the same
  position returns the written index, the buffer keeps its length, and every bit of
  every byte outside the bit field of that position is unchanged.
\<close>

theorem SET_GET_PIXEL_roundtrip:
  assumes bpp: "bitsPerPixel \<in> {1, 2, 4, 8}"
    and col: "0 \<le> color" "color < 2 ^ bitsPerPixel"
    and inb: "index div (8 div bitsPerPixel) < length array"
  shows "\<exists>array'. SET_PIXEL array index bitsPerPixel color = Inr array'
           \<and> GET_PIXEL array' index bitsPerPixel = Inr color
           \<and> length array' = length array
           \<and> (\<forall>j b. j < length array
                  \<and> \<not> (j = index div (8 div bitsPerPixel)
                        \<and> (index * bitsPerPixel) mod 8 \<le> b
                        \<and> b < (index * bitsPerPixel) mod 8 + bitsPerPixel)
                \<longrightarrow> bit (array' ! j) b = bit (array ! j) b)"
proof -
  define k where "k = index div (8 div bitsPerPixel)"
  define sh where "sh = (index * bitsPerPixel) mod 8"
  define y :: "8 word" where
    "y = word_of_int ((uint (array ! k) AND NOT (push_bit sh (mask bitsPerPixel)))
                       OR push_bit sh color)"
  have nz: "bitsPerPixel \<noteq> 0" "8 div bitsPerPixel \<noteq> 0"
    using bpp by auto
  have fits: "sh + bitsPerPixel \<le> 8"
    unfolding sh_def using bpp by (rule shift_fits)
  have set_eq: "SET_PIXEL array index bitsPerPixel color = Inr (array[k := y])"
    using nz inb by (simp add: SET_PIXEL_def k_def sh_def y_def flip: mask_eq_exp_minus_1)
  have "GET_PIXEL (array[k := y]) index bitsPerPixel
          = Inr (drop_bit sh (uint y) AND mask bitsPerPixel)"
    using nz inb by (simp add: GET_PIXEL_def k_def sh_def flip: mask_eq_exp_minus_1)
  then have get_eq: "GET_PIXEL (array[k := y]) index bitsPerPixel = Inr color"
    unfolding y_def by (simp only: field_get [OF fits col])
  have frame: "bit (array[k := y] ! j) b = bit (array ! j) b"
    if "j < length array" "\<not> (j = k \<and> sh \<le> b \<and> b < sh + bitsPerPixel)" for j b
  proof (cases "j = k")
    case True
    then have nb: "\<not> (sh \<le> b \<and> b < sh + bitsPerPixel)" using that by simp
    have "bit y b = bit (array ! k) b"
      unfolding y_def by (rule field_frame [OF col nb])
    then show ?thesis using True that by simp
  next
    case False
    then show ?thesis by simp
  qed
  show ?thesis
    using set_eq get_eq frame unfolding k_def sh_def by auto
qed

theorem SET_GET_PIXEL_roundtrip_witness:
  "(2::nat) \<in> {1, 2, 4, 8} \<and> (0::int) \<le> 1 \<and> (1::int) < 2 ^ 2
   \<and> 5 div (8 div 2) < length [0xFF, 0x00 :: 8 word]
   \<and> SET_PIXEL [0xFF, 0x00] 5 2 1 = Inr [0xFF, 0x04]
   \<and> GET_PIXEL [0xFF, 0x04] 5 2 = Inr 1"
  using SET_GET_PIXEL_roundtrip [of 2 1 5 "[0xFF, 0x00]"]
  by (simp add: SET_PIXEL_def GET_PIXEL_def)

subsection \<open>Cycles and nanoseconds\<close>

lemma CYCLES_unat:
  assumes "unat f * unat d + 999999999 < 2 ^ 64"
  shows "unat (CYCLES f d) = (unat f * unat d + 999999999) div 1000000000"
proof -
  have m: "unat (f * d) = unat f * unat d"
    using assms by (simp add: unat_word_ariths)
  have e: "f * d + NS_PER_SEC - 1 = f * d + 999999999"
    by (simp add: NS_PER_SEC_def)
  have "unat (f * d + 999999999) = unat f * unat d + 999999999"
    using assms m by (simp add: unat_word_ariths)
  then show ?thesis
    unfolding CYCLES_def e by (simp add: unat_div NS_PER_SEC_def)
qed

lemma ceil_covers:
  fixes N :: nat
  shows "N \<le> ((N + 999999999) div 1000000000) * 1000000000"
  by arith

lemma ceil_least:
  fixes N :: nat
  shows "N \<le> n * 1000000000 \<Longrightarrow> (N + 999999999) div 1000000000 \<le> n"
  by arith

lemma ceil_div_exact:
  fixes D F :: nat
  assumes "0 < F"
  shows "(D * F + (F - 1)) div F = D"
proof (rule div_nat_eqI)
  show "F * D \<le> D * F + (F - 1)" by simp
  have "D * F = F * D" by (rule mult.commute)
  then show "D * F + (F - 1) < F * Suc D"
    using assms by (simp only: mult_Suc_right)
qed

lemma NANOSECONDS_covers:
  assumes f: "f \<noteq> 0" and le: "unat d * unat f \<le> unat c * 1000000000"
    and b: "unat c * 1000000000 + unat f - 1 < 2 ^ 64"
  shows "\<exists>ns. NANOSECONDS f c = Some ns \<and> d \<le> ns"
proof -
  have fpos: "0 < unat f" using f by (simp add: unat_gt_0)
  have m: "unat (c * NS_PER_SEC) = unat c * 1000000000"
    using b fpos by (simp add: unat_word_ariths NS_PER_SEC_def)
  have f1: "unat (f - 1) = unat f - 1"
    using fpos by (simp add: unat_sub word_le_nat_alt)
  have e: "c * NS_PER_SEC + f - 1 = c * NS_PER_SEC + (f - 1)"
    by simp
  have a: "unat (c * NS_PER_SEC + (f - 1)) = unat c * 1000000000 + unat f - 1"
    using b fpos m f1 by (simp add: unat_word_ariths)
  have "unat d = (unat d * unat f + (unat f - 1)) div unat f"
    using fpos by (simp only: ceil_div_exact)
  also have "\<dots> \<le> (unat c * 1000000000 + unat f - 1) div unat f"
    using le fpos by (intro div_le_mono) simp
  finally have "unat d \<le> unat ((c * NS_PER_SEC + f - 1) div f)"
    unfolding e by (simp add: unat_div a)
  then show ?thesis
    using f by (simp add: NANOSECONDS_def word_le_nat_alt)
qed

text \<open>
  Claim C6, as stated, for every duration and frequency: \<open>CYCLES\<close> is the ceiling of
  \<open>d * f / 1e9\<close>. The macro computes in 64 bits, and the product wraps around: at 16 MHz
  and a duration of 1152921504607 ns the result is 1 cycle, which does not cover it.
\<close>

theorem CYCLES_overflow_counterexample:
  "CYCLES 16000000 1152921504607 = 1
   \<and> \<not> (unat (1152921504607 :: 64 word) * unat (16000000 :: 64 word)
          \<le> unat (CYCLES 16000000 1152921504607) * 1000000000)"
  by (simp add: CYCLES_def NS_PER_SEC_def)

text \<open>
  Claim C6, amended. When \<open>f * d + 999999999\<close> fits in 64 bits, \<open>CYCLES f d\<close> is the
  least \<open>n\<close> with \<open>n * 1e9 \<ge> d * f\<close>; when moreover \<open>f\<close> is not zero and
  \<open>CYCLES f d * 1e9 + f - 1\<close> fits in 64 bits, \<open>NANOSECONDS (CYCLES f d)\<close> is at least \<open>d\<close>;
  at 16 MHz, 650 ns are 11 cycles.
\<close>

theorem CYCLES_is_ceiling:
  assumes "unat f * unat d + 999999999 < 2 ^ 64"
  shows "unat d * unat f \<le> unat (CYCLES f d) * 1000000000
       \<and> (\<forall>n. unat d * unat f \<le> n * 1000000000 \<longrightarrow> unat (CYCLES f d) \<le> n)
       \<and> (f \<noteq> 0 \<and> unat (CYCLES f d) * 1000000000 + unat f - 1 < 2 ^ 64
            \<longrightarrow> (\<exists>ns. NANOSECONDS f (CYCLES f d) = Some ns \<and> d \<le> ns))
       \<and> CYCLES 16000000 650 = 11"
proof -
  have c: "unat (CYCLES f d) = (unat d * unat f + 999999999) div 1000000000"
    using assms by (simp add: CYCLES_unat mult.commute)
  have covers: "unat d * unat f \<le> unat (CYCLES f d) * 1000000000"
    unfolding c by (rule ceil_covers)
  have least: "unat (CYCLES f d) \<le> n" if "unat d * unat f \<le> n * 1000000000" for n
    unfolding c using that by (rule ceil_least)
  have ns: "\<exists>ns. NANOSECONDS f (CYCLES f d) = Some ns \<and> d \<le> ns"
    if "f \<noteq> 0" "unat (CYCLES f d) * 1000000000 + unat f - 1 < 2 ^ 64"
    using that(1) covers that(2) by (rule NANOSECONDS_covers)
  have ex: "CYCLES 16000000 650 = 11"
    by (simp add: CYCLES_def NS_PER_SEC_def)
  show ?thesis
    using covers least ns ex by blast
qed

theorem CYCLES_is_ceiling_witness:
  "unat (16000000 :: 64 word) * unat (650 :: 64 word) + 999999999 < 2 ^ 64
   \<and> unat (650 :: 64 word) * unat (16000000 :: 64 word)
        \<le> unat (CYCLES 16000000 650) * 1000000000
   \<and> unat (CYCLES 16000000 650) \<le> 11
   \<and> (\<exists>ns. NANOSECONDS 16000000 (CYCLES 16000000 650) = Some ns \<and> 650 \<le> ns)"
proof -
  have h: "unat (16000000 :: 64 word) * unat (650 :: 64 word) + 999999999 < 2 ^ 64"
    by simp
  have c: "CYCLES 16000000 650 = 11"
    by (simp add: CYCLES_def NS_PER_SEC_def)
  have n: "NANOSECONDS 16000000 11 = Some 688"
    by (simp add: NANOSECONDS_def NS_PER_SEC_def)
  show ?thesis
    using CYCLES_is_ceiling [OF h] h by (simp add: c n)
qed

subsection \<open>Two ports: the bytes of each bit period\<close>

lemma for_each_ok:
  assumes "\<And>i. i \<in> set xs \<Longrightarrow> body i = Inr (f i)"
  shows "for_each xs body = Inr (concat (map f xs))"
  using assms by (induction xs) auto

lemma stripBPP_cases: "stripBPP pc = 3 \<or> stripBPP pc = 4"
  by (simp add: stripBPP_def PT_BYTES_PER_PIXEL_def)

lemma twoPortByte_ok:
  assumes "pos < length array" "twoPortOther cfg bs pos < length array"
  shows "twoPortByte cfg array bs pos
         = Inr (twoPortBytePair cfg (array ! pos) (array ! twoPortOther cfg bs pos))"
  unfolding twoPortByte_def twoPortBytePair_def
  using assms by (intro for_each_ok) (simp add: read_at_def)

lemma twoPortLoop_runs:
  assumes inc: "twoPortIncrement cfg = inc" "0 < inc" and bound: "bs < 65536"
    and body: "\<And>j. j < k \<Longrightarrow> twoPortPixel cfg array bs (pix + j * inc) = Inr (ev (pix + j * inc))"
    and exact: "pix + k * inc = bs"
  shows "twoPortLoop cfg array bs pix acc
         = Some (Inr (acc @ concat (map (\<lambda>j. ev (pix + j * inc)) [0 ..< k])))"
  using body exact
proof (induction k arbitrary: pix acc)
  case 0
  then show ?case by (subst twoPortLoop.simps) simp
next
  case (Suc k)
  have lt: "pix < bs" using Suc.prems(2) inc(2) by simp
  have px: "twoPortPixel cfg array bs pix = Inr (ev pix)"
    using Suc.prems(1) [of 0] by simp
  have nowrap: "(pix + inc) mod 65536 = pix + inc"
    using Suc.prems(2) bound by simp
  have ih: "twoPortLoop cfg array bs (pix + inc) (acc @ ev pix)
            = Some (Inr ((acc @ ev pix) @ concat (map (\<lambda>j. ev (pix + inc + j * inc)) [0 ..< k])))"
  proof (rule Suc.IH)
    fix j assume "j < k"
    then show "twoPortPixel cfg array bs (pix + inc + j * inc) = Inr (ev (pix + inc + j * inc))"
      using Suc.prems(1) [of "Suc j"] by (simp add: add.assoc)
  next
    show "pix + inc + k * inc = bs" using Suc.prems(2) by simp
  qed
  have shift: "map (\<lambda>j. ev (pix + j * inc)) [0 ..< Suc k]
               = ev pix # map (\<lambda>j. ev (pix + inc + j * inc)) [0 ..< k]"
  proof -
    have "[0 ..< Suc k] = 0 # map Suc [0 ..< k]"
      by (simp add: upt_conv_Cons map_Suc_upt del: upt_Suc)
    then show ?thesis by (simp add: comp_def add.assoc del: upt_Suc)
  qed
  show ?case
    by (subst twoPortLoop.simps) (simp add: lt px inc(1) nowrap ih shift del: upt_Suc)
qed


lemma twoPortPixel_ok:
  assumes bpp: "stripBPP (pixelClass cfg) = bpp"
    and nowrap: "pix + bpp < 65536"
    and inD: "pix + bpp \<le> length array"
    and inC: "\<And>pos. pix \<le> pos \<Longrightarrow> pos < pix + bpp \<Longrightarrow> twoPortOther cfg bs pos < length array"
  shows "twoPortPixel cfg array bs pix
         = Inr (concat (map (\<lambda>pos. twoPortBytePair cfg (array ! pos) (array ! twoPortOther cfg bs pos))
                  [pix ..< pix + bpp]))"
proof -
  have m: "(pix + stripBPP (pixelClass cfg)) mod 65536 = pix + bpp"
    using bpp nowrap by simp
  show ?thesis
    unfolding twoPortPixel_def m
  proof (rule for_each_ok)
    fix pos assume "pos \<in> set [pix ..< pix + bpp]"
    then have r: "pix \<le> pos" "pos < pix + bpp" by simp_all
    then have "pos < length array" using inD by simp
    then show "twoPortByte cfg array bs pos
               = Inr (twoPortBytePair cfg (array ! pos) (array ! twoPortOther cfg bs pos))"
      using inC [OF r] by (rule twoPortByte_ok)
  qed
qed

lemma concat_blocks:
  "concat (map (\<lambda>j. concat (map g (B j))) js) = concat (map g (concat (map B js)))"
  by (induction js) simp_all

lemma stream_of_positions:
  "twoPortStream cfg (map ((!) a) P) (map ((!) a) (map (\<lambda>p. p + off) P))
   = concat (map (\<lambda>pos. twoPortBytePair cfg (a ! pos) (a ! (pos + off))) P)"
  by (induction P) (simp_all add: twoPortStream_def)

lemma upt_blocks:
  "concat (map (\<lambda>j. [j * b ..< j * b + b]) [0 ..< m]) = [0 ..< m * (b::nat)]"
proof (induction m)
  case 0
  then show ?case by simp
next
  case (Suc m)
  have "[0 ..< m * b + b] = [0 ..< m * b] @ [m * b ..< m * b + b]"
    by (rule upt_add_eq_append) simp
  then show ?case using Suc by (simp add: add.commute)
qed

lemma map_add_upt_general:
  "map (\<lambda>p. p + off) [x ..< y] = [x + off ..< y + (off::nat)]"
  by (simp add: list_eq_iff_nth_eq)


lemma twoPort_split:
  assumes pr: "protocol cfg = TWO_PORT_SPLIT_BITBANG"
    and len: "length array = unat count"
    and dv: "2 * stripBPP (pixelClass cfg) dvd unat count"
  shows "twoPortSoftwareSendBytes cfg count array
         = Some (Inr (twoPortStream cfg (map ((!) array) (dataIndices cfg (unat count)))
                                        (map ((!) array) (clockIndices cfg (unat count)))))"
proof -
  define bpp where "bpp = stripBPP (pixelClass cfg)"
  define n where "n = unat count"
  define bs where "bs = n div 2"
  obtain m where m: "n = 2 * bpp * m"
    using dv unfolding bpp_def n_def by (auto simp: dvd_def)
  have bpp_pos: "0 < bpp" using stripBPP_cases [of "pixelClass cfg"] bpp_def by auto
  have bpp_le: "bpp \<le> 4" using stripBPP_cases [of "pixelClass cfg"] bpp_def by auto
  have "unat count < 2 ^ LENGTH(16)" by (rule unsigned_less)
  then have nb: "n < 65536" by (simp add: n_def)
  have bs_eq: "bs = m * bpp" unfolding bs_def m by simp
  have n2: "n = bs + bs" unfolding bs_eq m by simp
  have inc: "twoPortIncrement cfg = bpp"
    using pr bpp_le by (simp add: twoPortIncrement_def bpp_def)
  have other: "twoPortOther cfg bs pos = pos + bs" if "pos < bs" for pos
    using pr that nb n2 by (simp add: twoPortOther_def)
  define ev where "ev pix = concat (map (\<lambda>pos. twoPortBytePair cfg (array ! pos)
                     (array ! (pos + bs))) [pix ..< pix + bpp])" for pix
  have body: "twoPortPixel cfg array bs (0 + j * bpp) = Inr (ev (0 + j * bpp))" if "j < m" for j
  proof -
    have "Suc j \<le> m" using that by simp
    then have "Suc j * bpp \<le> m * bpp" by (rule mult_le_mono1)
    then have up: "j * bpp + bpp \<le> bs" by (simp add: bs_eq add.commute)
    have "twoPortPixel cfg array bs (j * bpp)
          = Inr (concat (map (\<lambda>pos. twoPortBytePair cfg (array ! pos)
                   (array ! twoPortOther cfg bs pos)) [j * bpp ..< j * bpp + bpp]))"
    proof (rule twoPortPixel_ok)
      show "stripBPP (pixelClass cfg) = bpp" by (simp add: bpp_def)
      show "j * bpp + bpp < 65536" using up nb n2 by simp
      show "j * bpp + bpp \<le> length array" using up len n2 n_def by simp
      fix pos assume "j * bpp \<le> pos" "pos < j * bpp + bpp"
      then have "pos < bs" using up by simp
      then show "twoPortOther cfg bs pos < length array"
        using other [of pos] len n2 n_def by simp
    qed
    moreover have "map (\<lambda>pos. twoPortBytePair cfg (array ! pos) (array ! twoPortOther cfg bs pos))
                     [j * bpp ..< j * bpp + bpp]
                 = map (\<lambda>pos. twoPortBytePair cfg (array ! pos) (array ! (pos + bs)))
                     [j * bpp ..< j * bpp + bpp]"
      using up by (intro map_cong refl) (simp add: other)
    ultimately show ?thesis by (simp add: ev_def)
  qed
  have "twoPortLoop cfg array bs 0 []
        = Some (Inr ([] @ concat (map (\<lambda>j. ev (0 + j * bpp)) [0 ..< m])))"
    using inc bpp_pos _ body
  proof (rule twoPortLoop_runs)
    show "bs < 65536" using nb n2 by simp
    show "0 + m * bpp = bs" by (simp add: bs_eq)
  qed
  also have "concat (map (\<lambda>j. ev (0 + j * bpp)) [0 ..< m])
             = concat (map (\<lambda>pos. twoPortBytePair cfg (array ! pos) (array ! (pos + bs)))
                 (concat (map (\<lambda>j. [j * bpp ..< j * bpp + bpp]) [0 ..< m])))"
    by (simp add: ev_def concat_blocks)
  also have "concat (map (\<lambda>j. [j * bpp ..< j * bpp + bpp]) [0 ..< m]) = [0 ..< bs]"
    by (simp add: upt_blocks bs_eq)
  also have "concat (map (\<lambda>pos. twoPortBytePair cfg (array ! pos) (array ! (pos + bs))) [0 ..< bs])
             = twoPortStream cfg (map ((!) array) [0 ..< bs])
                 (map ((!) array) (map (\<lambda>p. p + bs) [0 ..< bs]))"
    by (rule stream_of_positions [symmetric])
  also have "map (\<lambda>p. p + bs) [0 ..< bs] = [bs ..< n]"
    by (simp add: map_add_upt n2)
  finally have "twoPortLoop cfg array bs 0 []
        = Some (Inr (twoPortStream cfg (map ((!) array) [0 ..< bs]) (map ((!) array) [bs ..< n])))"
    by simp
  then show ?thesis
    using pr by (simp add: twoPortSoftwareSendBytes_def dataIndices_def clockIndices_def
                   bs_def n_def)
qed


text \<open>
  In interleaved mode the routine takes blocks of \<open>stripBPP\<close> bytes in turn: the blocks
  of even number for the data line, those of odd number for the clock line.
\<close>

lemma twoPort_intlv:
  assumes pr: "protocol cfg = TWO_PORT_INTLV_BITBANG"
    and len: "length array = unat count"
    and dv: "2 * stripBPP (pixelClass cfg) dvd unat count"
  shows "twoPortSoftwareSendBytes cfg count array
         = Some (Inr (twoPortStream cfg
              (map ((!) array) (evenBlocks (stripBPP (pixelClass cfg)) (unat count)))
              (map ((!) array) (oddBlocks (stripBPP (pixelClass cfg)) (unat count)))))"
proof -
  define bpp where "bpp = stripBPP (pixelClass cfg)"
  define n where "n = unat count"
  obtain m where m: "n = 2 * bpp * m"
    using dv unfolding bpp_def n_def by (auto simp: dvd_def)
  have bpp_pos: "0 < bpp" using stripBPP_cases [of "pixelClass cfg"] bpp_def by auto
  have bpp_le: "bpp \<le> 4" using stripBPP_cases [of "pixelClass cfg"] bpp_def by auto
  have "unat count < 2 ^ LENGTH(16)" by (rule unsigned_less)
  then have nb: "n < 65536" by (simp add: n_def)
  have n_eq: "n = m * (2 * bpp)" unfolding m by simp
  have inc: "twoPortIncrement cfg = 2 * bpp"
    using pr bpp_le by (simp add: twoPortIncrement_def bpp_def)
  have other: "twoPortOther cfg n pos = pos + bpp" if "pos + bpp < n" for pos
    using pr that nb by (simp add: twoPortOther_def bpp_def)
  define ev where "ev pix = concat (map (\<lambda>pos. twoPortBytePair cfg (array ! pos)
                     (array ! (pos + bpp))) [pix ..< pix + bpp])" for pix
  have body: "twoPortPixel cfg array n (0 + j * (2 * bpp)) = Inr (ev (0 + j * (2 * bpp)))"
    if "j < m" for j
  proof -
    have "Suc j \<le> m" using that by simp
    then have "Suc j * (2 * bpp) \<le> m * (2 * bpp)" by (rule mult_le_mono1)
    then have up: "j * (2 * bpp) + bpp + bpp \<le> n" by (simp add: n_eq add.commute)
    have "twoPortPixel cfg array n (j * (2 * bpp))
          = Inr (concat (map (\<lambda>pos. twoPortBytePair cfg (array ! pos)
                   (array ! twoPortOther cfg n pos)) [j * (2 * bpp) ..< j * (2 * bpp) + bpp]))"
    proof (rule twoPortPixel_ok)
      show "stripBPP (pixelClass cfg) = bpp" by (simp add: bpp_def)
      show "j * (2 * bpp) + bpp < 65536" using up nb by simp
      show "j * (2 * bpp) + bpp \<le> length array" using up len n_def by simp
      fix pos assume "j * (2 * bpp) \<le> pos" "pos < j * (2 * bpp) + bpp"
      then have "pos + bpp < n" using up by simp
      then show "twoPortOther cfg n pos < length array"
        using other [of pos] len n_def by simp
    qed
    moreover have "map (\<lambda>pos. twoPortBytePair cfg (array ! pos) (array ! twoPortOther cfg n pos))
                     [j * (2 * bpp) ..< j * (2 * bpp) + bpp]
                 = map (\<lambda>pos. twoPortBytePair cfg (array ! pos) (array ! (pos + bpp)))
                     [j * (2 * bpp) ..< j * (2 * bpp) + bpp]"
      using up by (intro map_cong refl) (simp add: other)
    ultimately show ?thesis by (simp add: ev_def)
  qed
  define P where "P = concat (map (\<lambda>j. [j * (2 * bpp) ..< j * (2 * bpp) + bpp]) [0 ..< m])"
  have "twoPortLoop cfg array n 0 []
        = Some (Inr ([] @ concat (map (\<lambda>j. ev (0 + j * (2 * bpp))) [0 ..< m])))"
    using inc _ nb body
  proof (rule twoPortLoop_runs)
    show "0 < 2 * bpp" using bpp_pos by simp
    show "0 + m * (2 * bpp) = n" by (simp add: n_eq)
  qed
  also have "concat (map (\<lambda>j. ev (0 + j * (2 * bpp))) [0 ..< m])
             = concat (map (\<lambda>pos. twoPortBytePair cfg (array ! pos) (array ! (pos + bpp))) P)"
    by (simp add: ev_def concat_blocks P_def)
  also have "\<dots> = twoPortStream cfg (map ((!) array) P) (map ((!) array) (map (\<lambda>p. p + bpp) P))"
    by (rule stream_of_positions [symmetric])
  finally have run: "twoPortLoop cfg array n 0 []
        = Some (Inr (twoPortStream cfg (map ((!) array) P)
                       (map ((!) array) (map (\<lambda>p. p + bpp) P))))"
    by simp
  have md: "n div (2 * bpp) = m" using bpp_pos by (simp add: m)
  have e1: "[2 * k * bpp ..< (2 * k + 1) * bpp] = [k * (2 * bpp) ..< k * (2 * bpp) + bpp]" for k
    by (simp add: algebra_simps)
  have e2: "[(2 * k + 1) * bpp ..< (2 * k + 2) * bpp]
            = map (\<lambda>p. p + bpp) [k * (2 * bpp) ..< k * (2 * bpp) + bpp]" for k
    by (simp add: map_add_upt_general algebra_simps)
  have dI: "evenBlocks bpp n = P"
    unfolding evenBlocks_def P_def md e1 by simp
  have cI: "oddBlocks bpp n = map (\<lambda>p. p + bpp) P"
    unfolding oddBlocks_def P_def md e2
    by (simp add: map_concat comp_def)
  show ?thesis
    using pr run by (simp add: twoPortSoftwareSendBytes_def dI cI flip: n_def bpp_def)
qed

lemma blocks_length:
  assumes "n = 2 * b * m" "0 < b"
  shows "length (evenBlocks b n) = m * b" "length (oddBlocks b n) = m * b"
proof -
  have md: "n div (2 * b) = m" using assms by simp
  have "length (concat (map (\<lambda>k. [2 * k * b ..< (2 * k + 1) * b]) [0 ..< j])) = j * b" for j
    by (induction j) (simp_all add: algebra_simps)
  then show "length (evenBlocks b n) = m * b" by (simp add: evenBlocks_def md)
  have "length (concat (map (\<lambda>k. [(2 * k + 1) * b ..< (2 * k + 2) * b]) [0 ..< j])) = j * b" for j
    by (induction j) (simp_all add: algebra_simps)
  then show "length (oddBlocks b n) = m * b" by (simp add: oddBlocks_def md)
qed

lemma blocks_set:
  assumes "n = 2 * b * m" "0 < b"
  shows "set (evenBlocks b n) \<union> set (oddBlocks b n) = {0 ..< n}"
proof -
  have md: "n div (2 * b) = m" using assms by simp
  have "set (concat (map (\<lambda>k. [2 * k * b ..< (2 * k + 1) * b]) [0 ..< j]))
        \<union> set (concat (map (\<lambda>k. [(2 * k + 1) * b ..< (2 * k + 2) * b]) [0 ..< j]))
        = {0 ..< 2 * j * b}" for j
  proof (induction j)
    case 0
    then show ?case by simp
  next
    case (Suc j)
    have "{2 * j * b ..< (2 * j + 1) * b} \<union> {(2 * j + 1) * b ..< (2 * j + 2) * b}
          = {2 * j * b ..< 2 * Suc j * b}"
      by (auto simp: algebra_simps)
    moreover have "{0 ..< 2 * j * b} \<union> {2 * j * b ..< 2 * Suc j * b} = {0 ..< 2 * Suc j * b}"
      by (auto simp: algebra_simps)
    ultimately show ?case using Suc by (simp add: Un_ac)
  qed
  from this [of m] show ?thesis
    by (simp add: evenBlocks_def oddBlocks_def md assms(1) mult.commute mult.left_commute)
qed

text \<open>The two index lists of the specification name every index below \<open>n\<close> once.\<close>

lemma indices_partition:
  assumes pr: "protocol cfg = TWO_PORT_SPLIT_BITBANG \<or> protocol cfg = TWO_PORT_INTLV_BITBANG"
    and dv: "2 * sizeof_pixel (pixelClass cfg) dvd n"
  shows "distinct (dataIndices cfg n @ clockIndices cfg n)
         \<and> set (dataIndices cfg n @ clockIndices cfg n) = {0 ..< n}
         \<and> length (dataIndices cfg n) = length (clockIndices cfg n)"
proof (cases "protocol cfg = TWO_PORT_SPLIT_BITBANG")
  case True
  have "[0 ..< n div 2 + (n - n div 2)] = [0 ..< n div 2] @ [n div 2 ..< n div 2 + (n - n div 2)]"
    by (rule upt_add_eq_append) simp
  then have "[0 ..< n div 2] @ [n div 2 ..< n] = [0 ..< n]"
    by simp
  moreover have "even n" using dv by (rule dvd_mult_left)
  then have "n div 2 = n - n div 2" by (auto elim: evenE)
  ultimately show ?thesis using True by (simp add: dataIndices_def clockIndices_def)
next
  case False
  define b where "b = sizeof_pixel (pixelClass cfg)"
  obtain m where m: "n = 2 * b * m"
    using dv unfolding b_def by (auto simp: dvd_def)
  have b_pos: "0 < b" unfolding b_def by (cases "pixelClass cfg") simp_all
  define D where "D = evenBlocks b n"
  define C where "C = oddBlocks b n"
  have dI: "dataIndices cfg n = D"
    unfolding dataIndices_def D_def b_def using False by simp
  have cI: "clockIndices cfg n = C"
    unfolding clockIndices_def C_def b_def using False by simp
  have st: "set (D @ C) = {0 ..< n}"
    using blocks_set [OF m b_pos] by (simp add: D_def C_def)
  have ln: "length D = m * b" "length C = m * b"
    unfolding D_def C_def using blocks_length [OF m b_pos] by simp_all
  then have "length (D @ C) = n" by (simp add: m)
  then have "card (set (D @ C)) = length (D @ C)"
    using st by simp
  then have "distinct (D @ C)" by (rule card_distinct)
  then show ?thesis using st ln by (simp add: dI cI)
qed

subsection \<open>Two ports: what each line carries\<close>

lemma pulses_high_same:
  "pulses p n s (SET_PORT_HIGH p n @ tr)
   = pulses p n (Some (case s of None \<Rightarrow> 0 | Some w \<Rightarrow> w + 2)) tr"
  by (cases s) (simp_all add: SET_PORT_HIGH_def sbiCycles_def)

lemma pulses_high_other:
  "\<not> (q = p \<and> m = n) \<Longrightarrow>
   pulses p n s (SET_PORT_HIGH q m @ tr) = pulses p n (map_option (\<lambda>w. w + 2) s) tr"
  by (auto simp add: SET_PORT_HIGH_def sbiCycles_def)

lemma pulses_low_same:
  "pulses p n (Some w) (SET_PORT_LOW p n @ tr) = (w + 2) # pulses p n None tr"
  "pulses p n None (SET_PORT_LOW p n @ tr) = pulses p n None tr"
  by (simp_all add: SET_PORT_LOW_def cbiCycles_def)

lemma pulses_low_other:
  "\<not> (q = p \<and> m = n) \<Longrightarrow>
   pulses p n s (SET_PORT_LOW q m @ tr) = pulses p n (map_option (\<lambda>w. w + 2) s) tr"
  by (auto simp add: SET_PORT_LOW_def cbiCycles_def)

lemma pulses_delay:
  "pulses p n s (DELAY_CYCLES c @ tr) = pulses p n (map_option (\<lambda>w. w + max 0 c) s) tr"
  by (cases s) (simp_all add: DELAY_CYCLES_def)

lemma pulses_data_bit:
  assumes ne: "\<not> (clockPortId cfg = dataPortId cfg \<and> clockPortPin cfg = dataPortPin cfg)"
  shows "pulses (dataPortId cfg) (dataPortPin cfg) None (twoPortBit cfg d c @ rest)
         = (if d then (if c then 4 + max 0 (high1 cfg - 4)
                       else 6 + max 0 (high0 cfg - 2) + max 0 (high1 cfg - 4))
            else 2 + max 0 (high0 cfg - 2))
           # pulses (dataPortId cfg) (dataPortPin cfg) None rest"
proof -
  note r = pulses_high_same pulses_high_other [OF ne] pulses_low_same pulses_low_other [OF ne]
    pulses_delay
  show ?thesis
    by (cases d; cases c) (simp_all add: twoPortBit_def r sbiCycles_def cbiCycles_def)
qed

lemma pulses_clock_bit:
  assumes ne: "\<not> (dataPortId cfg = clockPortId cfg \<and> dataPortPin cfg = clockPortPin cfg)"
  shows "pulses (clockPortId cfg) (clockPortPin cfg) None (twoPortBit cfg d c @ rest)
         = (if c then (if d then 4 + max 0 (high1 cfg - 4)
                       else 8 + max 0 (high0 cfg - 2) + max 0 (high1 cfg - 4))
            else 2 + max 0 (high0 cfg - 2))
           # pulses (clockPortId cfg) (clockPortPin cfg) None rest"
proof -
  note r = pulses_high_same pulses_high_other [OF ne] pulses_low_same pulses_low_other [OF ne]
    pulses_delay
  show ?thesis
    by (cases d; cases c) (simp_all add: twoPortBit_def r sbiCycles_def cbiCycles_def)
qed

lemma received_bits:
  assumes ne: "\<not> (dataPortId cfg = clockPortId cfg \<and> dataPortPin cfg = clockPortPin cfg)"
    and lo: "max 0 (high0 cfg - sbiCycles) + cbiCycles \<le> t"
    and hi: "t < max 0 (high1 cfg - 2 * sbiCycles) + 2 * cbiCycles"
  shows "received t (dataPortId cfg) (dataPortPin cfg)
           (concat (map (\<lambda>b. twoPortBit cfg (f b) (g b)) bs) @ rest)
         = map f bs @ received t (dataPortId cfg) (dataPortPin cfg) rest"
    and "received t (clockPortId cfg) (clockPortPin cfg)
           (concat (map (\<lambda>b. twoPortBit cfg (f b) (g b)) bs) @ rest)
         = map g bs @ received t (clockPortId cfg) (clockPortPin cfg) rest"
proof -
  have ne': "\<not> (clockPortId cfg = dataPortId cfg \<and> clockPortPin cfg = dataPortPin cfg)"
    using ne by auto
  have z: "0 \<le> max 0 (high0 cfg - 2)" by simp
  have d: "received t (dataPortId cfg) (dataPortPin cfg) (twoPortBit cfg x y @ tr)
           = x # received t (dataPortId cfg) (dataPortPin cfg) tr" for x y tr
    unfolding received_def pulses_data_bit [OF ne']
    using lo hi z by (auto simp add: sbiCycles_def cbiCycles_def)
  have c: "received t (clockPortId cfg) (clockPortPin cfg) (twoPortBit cfg x y @ tr)
           = y # received t (clockPortId cfg) (clockPortPin cfg) tr" for x y tr
    unfolding received_def pulses_clock_bit [OF ne]
    using lo hi z by (auto simp add: sbiCycles_def cbiCycles_def)
  show "received t (dataPortId cfg) (dataPortPin cfg)
           (concat (map (\<lambda>b. twoPortBit cfg (f b) (g b)) bs) @ rest)
         = map f bs @ received t (dataPortId cfg) (dataPortPin cfg) rest"
    by (induction bs) (simp_all add: d)
  show "received t (clockPortId cfg) (clockPortPin cfg)
           (concat (map (\<lambda>b. twoPortBit cfg (f b) (g b)) bs) @ rest)
         = map g bs @ received t (clockPortId cfg) (clockPortPin cfg) rest"
    by (induction bs) (simp_all add: c)
qed

text \<open>
  When the two lines are two pins and the threshold lies between the width of a 0 and
  the width of a 1, each line carries the bits of its own bytes.
\<close>

lemma received_stream:
  assumes ne: "\<not> (dataPortId cfg = clockPortId cfg \<and> dataPortPin cfg = clockPortPin cfg)"
    and lo: "max 0 (high0 cfg - sbiCycles) + cbiCycles \<le> t"
    and hi: "t < max 0 (high1 cfg - 2 * sbiCycles) + 2 * cbiCycles"
    and len: "length ds = length cs"
  shows "received t (dataPortId cfg) (dataPortPin cfg) (twoPortStream cfg ds cs) = byte_bits ds"
    and "received t (clockPortId cfg) (clockPortPin cfg) (twoPortStream cfg ds cs) = byte_bits cs"
proof -
  note rb = received_bits [OF ne lo hi]
  have d: "received t (dataPortId cfg) (dataPortPin cfg)
             (concat (map (\<lambda>dc. twoPortBytePair cfg (fst dc) (snd dc)) ps) @ rest)
           = byte_bits (map fst ps) @ received t (dataPortId cfg) (dataPortPin cfg) rest"
    for ps rest
    by (induction ps) (simp_all add: twoPortBytePair_def byte_bits_def rb(1))
  have c: "received t (clockPortId cfg) (clockPortPin cfg)
             (concat (map (\<lambda>dc. twoPortBytePair cfg (fst dc) (snd dc)) ps) @ rest)
           = byte_bits (map snd ps) @ received t (clockPortId cfg) (clockPortPin cfg) rest"
    for ps rest
    by (induction ps) (simp_all add: twoPortBytePair_def byte_bits_def rb(2))
  have e: "received t p n [] = []" for p n by (simp add: received_def)
  show "received t (dataPortId cfg) (dataPortPin cfg) (twoPortStream cfg ds cs) = byte_bits ds"
    using d [of "zip ds cs" "[]"] len by (simp add: twoPortStream_def e)
  show "received t (clockPortId cfg) (clockPortPin cfg) (twoPortStream cfg ds cs) = byte_bits cs"
    using c [of "zip ds cs" "[]"] len by (simp add: twoPortStream_def e)
qed

text \<open>
  For the five formats other than \<open>hbgr\<close>, whose \<open>stripBPP\<close> is the size of the pixel:
  for an array of \<open>count\<close> bytes, \<open>count\<close> a whole number of pixel pairs, the routine
  returns without reading outside the array, the data line carries the bits of the bytes
  at \<open>dataIndices\<close> and the clock line the bits of the bytes at \<open>clockIndices\<close>, in
  order; by \<open>indices_partition\<close> the two lists name every index once.
\<close>

lemma twoPort_lines:
  assumes pr: "protocol cfg = TWO_PORT_SPLIT_BITBANG \<or> protocol cfg = TWO_PORT_INTLV_BITBANG"
    and fmt: "pixelClass cfg \<noteq> hbgr"
    and len: "length array = unat count"
    and dv: "2 * sizeof_pixel (pixelClass cfg) dvd unat count"
    and ne: "\<not> (dataPortId cfg = clockPortId cfg \<and> dataPortPin cfg = clockPortPin cfg)"
    and lo: "max 0 (high0 cfg - sbiCycles) + cbiCycles \<le> t"
    and hi: "t < max 0 (high1 cfg - 2 * sbiCycles) + 2 * cbiCycles"
  shows "\<exists>tr. twoPortSoftwareSendBytes cfg count array = Some (Inr tr)
           \<and> received t (dataPortId cfg) (dataPortPin cfg) tr
               = byte_bits (map ((!) array) (dataIndices cfg (unat count)))
           \<and> received t (clockPortId cfg) (clockPortPin cfg) tr
               = byte_bits (map ((!) array) (clockIndices cfg (unat count)))"
proof -
  let ?D = "map ((!) array) (dataIndices cfg (unat count))"
  let ?C = "map ((!) array) (clockIndices cfg (unat count))"
  have sz: "stripBPP (pixelClass cfg) = sizeof_pixel (pixelClass cfg)"
    using fmt by (rule stripBPP_other_formats)
  have dv': "2 * stripBPP (pixelClass cfg) dvd unat count" using dv sz by simp
  have run: "twoPortSoftwareSendBytes cfg count array = Some (Inr (twoPortStream cfg ?D ?C))"
  proof (cases "protocol cfg = TWO_PORT_SPLIT_BITBANG")
    case True
    then show ?thesis using len dv' by (rule twoPort_split)
  next
    case False
    then have i: "protocol cfg = TWO_PORT_INTLV_BITBANG" using pr by simp
    show ?thesis
      using twoPort_intlv [OF i len dv'] False
      by (simp add: dataIndices_def clockIndices_def sz)
  qed
  have "length ?D = length ?C"
    using indices_partition [OF pr dv] by simp
  from received_stream [OF ne lo hi this] run show ?thesis by simp
qed

text \<open>The interleaved WS2812B preset, four \<open>grb\<close> pixels.\<close>

lemma twoPort_lines_example:
  "\<exists>tr. twoPortSoftwareSendBytes (ws2812bi 16000000 PortD 6 PortB 5) 12
            [1, 2, 3, 4, 5, 6, 7, 8, 9, 10, 11, 12] = Some (Inr tr)
        \<and> received 5 PortD 6 tr = byte_bits [1, 2, 3, 7, 8, 9]
        \<and> received 5 PortB 5 tr = byte_bits [4, 5, 6, 10, 11, 12]"
proof -
  let ?I = "ws2812bi 16000000 PortD 6 PortB 5"
  have f: "protocol ?I = TWO_PORT_INTLV_BITBANG" "pixelClass ?I = grb"
    "dataPortId ?I = PortD" "dataPortPin ?I = 6" "clockPortId ?I = PortB" "clockPortPin ?I = 5"
    "high0 ?I = 2" "high1 ?I = 8"
    by (simp_all add: ws2812bi_def ws2812b_timing_def CYCLES_def NS_PER_SEC_def)
  have ix: "dataIndices ?I 12 = [0, 1, 2, 6, 7, 8]" "clockIndices ?I 12 = [3, 4, 5, 9, 10, 11]"
    by (simp_all add: dataIndices_def clockIndices_def f evenBlocks_def oddBlocks_def
          upt_conv_Cons)
  show ?thesis
    using twoPort_lines [where cfg = ?I and count = 12 and t = 5
        and array = "[1, 2, 3, 4, 5, 6, 7, 8, 9, 10, 11, 12]"]
    by (simp add: f ix sbiCycles_def cbiCycles_def)
qed

text \<open>
  Claim C7. The claim fails for the format \<open>hbgr\<close>, whose pixels have four bytes and
  whose \<open>stripBPP\<close> is 3. In split mode, for two pixels (8 bytes), the routine reads
  \<open>array[8]\<close>, outside the array. In interleaved mode, for six pixels (24 bytes, the
  bytes 1 to 24), it returns, and the data line carries bytes 1-3, 7-9, 13-15 and 19-21,
  the clock line the other twelve: the pixels of even index are bytes 1-4, 9-12 and 17-20.
\<close>

theorem twoPort_hbgr_tears_pixels:
  "twoPortSoftwareSendBytes ((ws2812bs 16000000 PortD 6 PortB 5)\<lparr>pixelClass := hbgr\<rparr>) 8
      [1, 2, 3, 4, 5, 6, 7, 8] = Some (Inl OutOfBounds)
   \<and> map_option (map_sum id (\<lambda>tr. (received 5 PortD 6 tr, received 5 PortB 5 tr)))
        (twoPortSoftwareSendBytes ((ws2812bi 16000000 PortD 6 PortB 5)\<lparr>pixelClass := hbgr\<rparr>) 24
           [1, 2, 3, 4, 5, 6, 7, 8, 9, 10, 11, 12, 13, 14, 15, 16, 17, 18, 19, 20, 21, 22, 23, 24])
      = Some (Inr (byte_bits [1, 2, 3, 7, 8, 9, 13, 14, 15, 19, 20, 21],
                   byte_bits [4, 5, 6, 10, 11, 12, 16, 17, 18, 22, 23, 24]))
   \<and> dataIndices ((ws2812bi 16000000 PortD 6 PortB 5)\<lparr>pixelClass := hbgr\<rparr>) 24
      = [0, 1, 2, 3, 8, 9, 10, 11, 16, 17, 18, 19]
   \<and> clockIndices ((ws2812bi 16000000 PortD 6 PortB 5)\<lparr>pixelClass := hbgr\<rparr>) 24
      = [4, 5, 6, 7, 12, 13, 14, 15, 20, 21, 22, 23]"
proof -
  let ?S = "(ws2812bs 16000000 PortD 6 PortB 5)\<lparr>pixelClass := hbgr\<rparr>"
  let ?I = "(ws2812bi 16000000 PortD 6 PortB 5)\<lparr>pixelClass := hbgr\<rparr>"
  let ?A = "[1, 2, 3, 4, 5, 6, 7, 8] :: 8 word list"
  let ?B = "[1, 2, 3, 4, 5, 6, 7, 8, 9, 10, 11, 12, 13, 14, 15, 16, 17, 18, 19, 20, 21, 22, 23, 24]
            :: 8 word list"
  have fS: "protocol ?S = TWO_PORT_SPLIT_BITBANG" "pixelClass ?S = hbgr"
    by (simp_all add: ws2812bs_def ws2812b_timing_def)
  have fI: "protocol ?I = TWO_PORT_INTLV_BITBANG" "pixelClass ?I = hbgr"
    "dataPortId ?I = PortD" "dataPortPin ?I = 6" "clockPortId ?I = PortB" "clockPortPin ?I = 5"
    "high0 ?I = 2" "high1 ?I = 8"
    by (simp_all add: ws2812bi_def ws2812b_timing_def CYCLES_def NS_PER_SEC_def)
  have incS: "twoPortIncrement ?S = 3"
    by (simp add: twoPortIncrement_def fS stripBPP_values)
  have p0: "\<exists>tr. twoPortPixel ?S ?A 4 0 = Inr tr"
    by (subst twoPortPixel_ok [where bpp = 3])
       (auto simp add: fS stripBPP_values twoPortOther_def)
  have rd: "read_at ?A 8 = Inl OutOfBounds" by (simp add: read_at_def)
  have b3: "\<exists>tr. twoPortByte ?S ?A 4 3 = Inr tr"
    by (subst twoPortByte_ok) (simp_all add: twoPortOther_def fS)
  have b4: "twoPortByte ?S ?A 4 4 = Inl OutOfBounds"
    by (simp add: twoPortByte_def twoPortOther_def fS bit_positions_def read_at_def)
  have p3: "twoPortPixel ?S ?A 4 3 = Inl OutOfBounds"
    using b3 b4
    by (auto simp add: twoPortPixel_def fS stripBPP_values upt_conv_Cons)
  have a: "twoPortSoftwareSendBytes ?S 8 ?A = Some (Inl OutOfBounds)"
    using p0
    by (auto simp add: twoPortSoftwareSendBytes_def fS twoPortLoop.simps [of ?S ?A 4 0]
          twoPortLoop.simps [of ?S ?A 4 3] incS p3)
  have run: "twoPortSoftwareSendBytes ?I 24 ?B
             = Some (Inr (twoPortStream ?I [1, 2, 3, 7, 8, 9, 13, 14, 15, 19, 20, 21]
                            [4, 5, 6, 10, 11, 12, 16, 17, 18, 22, 23, 24]))"
    by (subst twoPort_intlv)
       (simp_all add: fI stripBPP_values evenBlocks_def oddBlocks_def upt_conv_Cons)
  have rc: "received 5 PortD 6 (twoPortStream ?I [1, 2, 3, 7, 8, 9, 13, 14, 15, 19, 20, 21]
                            [4, 5, 6, 10, 11, 12, 16, 17, 18, 22, 23, 24])
            = byte_bits [1, 2, 3, 7, 8, 9, 13, 14, 15, 19, 20, 21]"
    "received 5 PortB 5 (twoPortStream ?I [1, 2, 3, 7, 8, 9, 13, 14, 15, 19, 20, 21]
                            [4, 5, 6, 10, 11, 12, 16, 17, 18, 22, 23, 24])
            = byte_bits [4, 5, 6, 10, 11, 12, 16, 17, 18, 22, 23, 24]"
    using received_stream [where cfg = ?I and t = 5
        and ds = "[1, 2, 3, 7, 8, 9, 13, 14, 15, 19, 20, 21]"
        and cs = "[4, 5, 6, 10, 11, 12, 16, 17, 18, 22, 23, 24]"]
    by (simp_all add: fI sbiCycles_def cbiCycles_def)
  have ix: "dataIndices ?I 24 = [0, 1, 2, 3, 8, 9, 10, 11, 16, 17, 18, 19]"
    "clockIndices ?I 24 = [4, 5, 6, 7, 12, 13, 14, 15, 20, 21, 22, 23]"
    by (simp_all add: dataIndices_def clockIndices_def fI evenBlocks_def oddBlocks_def
          upt_conv_Cons)
  show ?thesis
    unfolding a run ix by (simp add: rc)
qed

subsection \<open>Byte streams of the one-port and SPI routines\<close>

lemma for_each_read:
  assumes "n \<le> length array"
  shows "for_each [0 ..< n] (\<lambda>c. case read_at array c of Inl e \<Rightarrow> Inl e | Inr v \<Rightarrow> Inr (f v))
         = Inr (concat (map f (take n array)))"
proof -
  have "for_each [0 ..< n] (\<lambda>c. case read_at array c of Inl e \<Rightarrow> Inl e | Inr v \<Rightarrow> Inr (f v))
        = Inr (concat (map (\<lambda>i. f (array ! i)) [0 ..< n]))"
    using assms by (intro for_each_ok) (simp add: read_at_def)
  moreover have "map (\<lambda>i. f (array ! i)) [0 ..< n] = map f (take n array)"
    using assms by (simp add: list_eq_iff_nth_eq)
  ultimately show ?thesis by simp
qed

lemma spi_bytes:
  "unat count \<le> length array \<Longrightarrow>
   spiSoftwareSendBytes cfg count array = Inr (concat (map (spiByte cfg) (take (unat count) array)))"
  unfolding spiSoftwareSendBytes_def by (rule for_each_read)

lemma onePort_bytes:
  "unat count \<le> length array \<Longrightarrow>
   onePortSoftwareSendBytes cfg count array
   = Inr (concat (map (onePortByte cfg) (take (unat count) array)))"
  unfolding onePortSoftwareSendBytes_def by (rule for_each_read)

lemma emit_emit: "emit tr2 (emit tr1 st) = emit (tr1 @ tr2) st"
  by (simp add: emit_def)

lemma emit_nothing: "emit [] st = st"
  by (simp add: emit_def)

subsection \<open>The pixel counter\<close>

lemma emit_pd: "pixelsDisplayed (emit tr st) = pixelsDisplayed st"
  by (simp add: emit_def)









subsection \<open>The closing frame of the clocked protocol\<close>

lemma apa102_fields:
  "protocol (apa102 f dId dPin cId cPin) = SPI_BITBANG"
  "pixelClass (apa102 f dId dPin cId cPin) = hbgr"
  "dataPortId (apa102 f dId dPin cId cPin) = dId"
  "dataPortPin (apa102 f dId dPin cId cPin) = dPin"
  "clockPortId (apa102 f dId dPin cId cPin) = cId"
  "clockPortPin (apa102 f dId dPin cId cPin) = cPin"
  by (simp_all add: apa102_def)

lemma spiSoftwareSendFrame_pulses:
  "spiSoftwareSendFrame cfg count high
   = (if high then PinHigh (dataPortId cfg) (dataPortPin cfg)
      else PinLow (dataPortId cfg) (dataPortPin cfg))
     # concat (replicate ((8 * unat count) mod 65536)
         [PinLow (clockPortId cfg) (clockPortPin cfg), PinHigh (clockPortId cfg) (clockPortPin cfg)])"
  by (simp add: spiSoftwareSendFrame_def SET_PORT_HIGH_def SET_PORT_LOW_def)

lemma spiSoftwareSendFrame_length:
  "unat count < 8192 \<Longrightarrow> length (spiSoftwareSendFrame cfg count high) = 1 + 2 * (8 * unat count)"
  by (simp add: spiSoftwareSendFrame_pulses length_concat sum_list_replicate)

text \<open>
  Claim C2, as stated, for every value of the counter. At 65535 the increment wraps
  around to 0 before the division: the length argument is 0, where \<open>ceil(65535/2)\<close> is
  32768.
\<close>

theorem end_frame_count_counterexample:
  "end_frame_count ((initial_state 0)\<lparr>pixelsDisplayed := 65535\<rparr>) = 0
   \<and> (unat (65535 :: 16 word) + 1) div 2 = 32768
   \<and> trace (end_op (apa102 16000000 PortD 6 PortB 5)
               ((initial_state 0)\<lparr>pixelsDisplayed := 65535\<rparr>))
       = spiSoftwareSendFrame (apa102 16000000 PortD 6 PortB 5) 0 True"
  by (simp add: end_frame_count_def initial_state_def end_op_def apa102_fields emit_def)

text \<open>
  Claim C2, amended. Under the clocked protocol \<open>end()\<close> emits one closing frame, with
  the first argument \<open>end_frame_count\<close>, and leaves the counter at 0; for every counter
  value \<open>n\<close> other than 65535 that argument is \<open>(n + 1) div 2\<close>, the ceiling of \<open>n / 2\<close>.
\<close>

theorem end_closing_frame:
  assumes "protocol cfg = SPI_BITBANG"
  shows "end_op cfg st
           = (emit (spiSoftwareSendFrame cfg (end_frame_count st) True) st)\<lparr>pixelsDisplayed := 0\<rparr>
         \<and> pixelsDisplayed (end_op cfg st) = 0
         \<and> (unat (pixelsDisplayed st) \<noteq> 65535
              \<longrightarrow> unat (end_frame_count st) = (unat (pixelsDisplayed st) + 1) div 2)"
proof -
  have "unat (end_frame_count st) = (unat (pixelsDisplayed st) + 1) div 2"
    if "unat (pixelsDisplayed st) \<noteq> 65535"
  proof -
    have "unat (pixelsDisplayed st) < 2 ^ LENGTH(16)" by (rule unsigned_less)
    then have "unat (pixelsDisplayed st) + 1 < 65536" using that by simp
    then have "unat (pixelsDisplayed st + 1) = unat (pixelsDisplayed st) + 1"
      by (simp add: unat_word_ariths)
    then show ?thesis by (simp add: end_frame_count_def unat_div)
  qed
  then show ?thesis using assms by (simp add: end_op_def)
qed

theorem end_closing_frame_witness:
  "protocol (apa102 16000000 PortD 6 PortB 5) = SPI_BITBANG
   \<and> unat (pixelsDisplayed ((initial_state 0)\<lparr>pixelsDisplayed := 3\<rparr>)) \<noteq> 65535
   \<and> end_frame_count ((initial_state 0)\<lparr>pixelsDisplayed := 3\<rparr>) = 2
   \<and> pixelsDisplayed (end_op (apa102 16000000 PortD 6 PortB 5)
        ((initial_state 0)\<lparr>pixelsDisplayed := 3\<rparr>)) = 0
   \<and> trace (end_op (apa102 16000000 PortD 6 PortB 5) ((initial_state 0)\<lparr>pixelsDisplayed := 3\<rparr>))
       = spiSoftwareSendFrame (apa102 16000000 PortD 6 PortB 5) 2 True"
  using end_closing_frame [of "apa102 16000000 PortD 6 PortB 5"
      "(initial_state 0)\<lparr>pixelsDisplayed := 3\<rparr>"]
  by (simp add: apa102_fields initial_state_def end_frame_count_def emit_def)

subsection \<open>Protocols without an implementation\<close>

text \<open>
  Claim C9, as stated: a send under \<open>ONE_PORT_PWM\<close>, \<open>ONE_PORT_UART\<close> or \<open>SPI_HARDWARE\<close> is
  rejected at build time and is never a silent no-op. The header has no check on the
  protocol: with the WS2812B timings and \<open>ONE_PORT_PWM\<close>, \<open>sendBytes\<close> returns without an
  event for three bytes to send, and so does the typed \<open>send\<close>.
\<close>

theorem unimplemented_protocol_counterexample:
  "sendBytes ((ws2812b 16000000 PortD 6)\<lparr>protocol := ONE_PORT_PWM\<rparr>) 3 [255, 255, 255]
     = Some (Inr [])
   \<and> send ((ws2812b 16000000 PortD 6)\<lparr>protocol := ONE_PORT_PWM\<rparr>) grb 1 [255, 255, 255]
         (initial_state 0)
     = Some (Inr (initial_state 0))"
  by (simp add: sendBytes_def send_def transmit_def emit_nothing ws2812b_def ws2812b_timing_def)

text \<open>
  Claim C9, amended. For a driver with one of the three protocols, \<open>sendBytes\<close> accepts
  every call, emits nothing and reports nothing; a typed \<open>send\<close> of pixels in the native
  format leaves the whole state as it was.
\<close>

theorem unimplemented_protocol_no_op:
  assumes "protocol cfg = ONE_PORT_PWM \<or> protocol cfg = ONE_PORT_UART \<or> protocol cfg = SPI_HARDWARE"
  shows "sendBytes cfg count array = Some (Inr [])
         \<and> send cfg (pixelClass cfg) numPixels array st = Some (Inr st)"
proof -
  have sb: "sendBytes cfg c a = Some (Inr [])" for c a
    using assms by (auto simp: sendBytes_def)
  have "protocol cfg \<noteq> SPI_BITBANG" using assms by auto
  then show ?thesis
    by (simp add: sb send_def transmit_def emit_nothing)
qed

theorem unimplemented_protocol_no_op_witness:
  "protocol ((ws2812b 16000000 PortD 6)\<lparr>protocol := SPI_HARDWARE\<rparr>) = SPI_HARDWARE
   \<and> sendBytes ((ws2812b 16000000 PortD 6)\<lparr>protocol := SPI_HARDWARE\<rparr>) 6 [1, 2, 3, 4, 5, 6]
       = Some (Inr [])
   \<and> send ((ws2812b 16000000 PortD 6)\<lparr>protocol := SPI_HARDWARE\<rparr>)
         (pixelClass ((ws2812b 16000000 PortD 6)\<lparr>protocol := SPI_HARDWARE\<rparr>)) 2
         [1, 2, 3, 4, 5, 6] (initial_state 0)
       = Some (Inr (initial_state 0))"
  using unimplemented_protocol_no_op [of "(ws2812b 16000000 PortD 6)\<lparr>protocol := SPI_HARDWARE\<rparr>"
      6 "[1, 2, 3, 4, 5, 6]" 2 "initial_state 0"]
  by simp


subsection \<open>Sends that return\<close>

lemma send_native_one_port:
  assumes "protocol cfg = ONE_PORT_BITBANG"
    and "unat (numPixels * of_nat (stripBPP (pixelClass cfg))) \<le> length array"
  shows "send cfg (pixelClass cfg) numPixels array st
         = Some (Inr (emit (concat (map (onePortByte cfg)
              (take (unat (numPixels * of_nat (stripBPP (pixelClass cfg)))) array))) st))"
  using assms by (simp add: send_def sendBytes_def transmit_def onePort_bytes)

lemma send_native_spi:
  assumes "protocol cfg = SPI_BITBANG"
    and "unat (numPixels * of_nat (stripBPP (pixelClass cfg))) \<le> length array"
  shows "send cfg (pixelClass cfg) numPixels array st
         = Some (Inr ((emit (concat (map (spiByte cfg)
              (take (unat (numPixels * of_nat (stripBPP (pixelClass cfg)))) array))) st)
              \<lparr>pixelsDisplayed := pixelsDisplayed st + numPixels\<rparr>))"
  using assms by (simp add: send_def sendBytes_def transmit_def spi_bytes emit_pd)

lemma ws2812b_fields:
  "protocol (ws2812b f dId dPin) = ONE_PORT_BITBANG"
  "pixelClass (ws2812b f dId dPin) = grb"
  by (simp_all add: ws2812b_def ws2812b_timing_def)

subsection \<open>Who changes the pixel counter\<close>




subsection \<open>Conversion of typed pixels\<close>

lemma native_init_values:
  "native_init rgb = [0, 0, 0]" "native_init grb = [0, 0, 0]" "native_init bgr = [0, 0, 0]"
  "native_init rgbw = [0, 0, 0, 0]" "native_init grbw = [0, 0, 0, 0]"
  "native_init hbgr = [0xFF, 0, 0, 0]"
  by (simp_all add: native_init_def PT_RGB_def PT_GRB_def PT_BGR_def PT_XXXW_def PT_BXXX_def
        eval_nat_numeral)

lemma length_is_3: "length xs = 3 \<Longrightarrow> \<exists>a b c. xs = [a, b, c]"
  by (cases xs; cases "tl xs"; cases "tl (tl xs)"; auto)

lemma length_is_4: "length xs = 4 \<Longrightarrow> \<exists>a b c d. xs = [a, b, c, d]"
  by (cases xs; cases "tl xs"; cases "tl (tl xs)"; cases "tl (tl (tl xs))"; auto)

text \<open>
  The conversion of one pixel, for every pair of formats: the colours go to the members
  of the same name; a native white byte is the source's white when the source has one
  and 0 otherwise; a native brightness byte is the source's when the source has one and
  \<open>0xFF\<close> otherwise.
\<close>

lemma convert_pixel_fields:
  assumes "length src = sizeof_pixel F"
  shows "length (convert_pixel N F (native_init N) src) = sizeof_pixel N
       \<and> convert_pixel N F (native_init N) src ! r_off N = src ! r_off F
       \<and> convert_pixel N F (native_init N) src ! g_off N = src ! g_off F
       \<and> convert_pixel N F (native_init N) src ! b_off N = src ! b_off F
       \<and> (pixel_type N AND PT_XXXW \<noteq> 0 \<longrightarrow>
            convert_pixel N F (native_init N) src ! 3
            = (if pixel_type F AND PT_XXXW \<noteq> 0 then src ! 3 else 0))
       \<and> (pixel_type N AND PT_BXXX \<noteq> 0 \<longrightarrow>
            convert_pixel N F (native_init N) src ! 0
            = (if pixel_type F AND PT_BXXX \<noteq> 0 then src ! 0 else 0xFF))"
  by (cases N; cases F;
      simp add: convert_pixel_def native_init_values Let_def
        PT_RGB_def PT_GRB_def PT_BGR_def PT_XXXW_def PT_BXXX_def)

lemma convert_pixel_overwrites:
  "convert_pixel N F (convert_pixel N F (native_init N) src') src
   = convert_pixel N F (native_init N) src"
  by (cases N; cases F;
      simp add: convert_pixel_def native_init_values Let_def
        PT_RGB_def PT_GRB_def PT_BGR_def PT_XXXW_def PT_BXXX_def)

lemma convert_rgb_to_grb: "convert_pixel grb rgb (native_init grb) [10, 20, 30] = [20, 10, 30]"
  by (simp add: convert_pixel_def native_init_values PT_RGB_def PT_GRB_def PT_XXXW_def
        PT_BXXX_def)


lemma send_converted_pixel:
  assumes "pixel_type F \<noteq> pixel_type (pixelClass cfg)" "length src = sizeof_pixel F"
  shows "send cfg F 1 src st
         = (case transmit (sendBytes cfg (of_nat (stripBPP (pixelClass cfg)))
                             (convert_pixel (pixelClass cfg) F (native_init (pixelClass cfg)) src)) st of
              None \<Rightarrow> None
            | Some (Inl e) \<Rightarrow> Some (Inl e)
            | Some (Inr st') \<Rightarrow>
                Some (Inr (if protocol cfg = SPI_BITBANG
                           then st'\<lparr>pixelsDisplayed := pixelsDisplayed st' + 1\<rparr> else st')))"
  using assms by (simp add: send_def Let_def split: option.splits sum.splits)

text \<open>
  For a native format other than \<open>hbgr\<close> the byte count is the size of the native
  pixel: on one port, a converted pixel is transmitted whole, and pixels already in the
  native format are transmitted as they are.
\<close>

lemma send_converted_one_port:
  assumes "protocol cfg = ONE_PORT_BITBANG" "pixelClass cfg \<noteq> hbgr"
    and "pixel_type F \<noteq> pixel_type (pixelClass cfg)" "length src = sizeof_pixel F"
  shows "send cfg F 1 src st
         = Some (Inr (emit (concat (map (onePortByte cfg)
              (convert_pixel (pixelClass cfg) F (native_init (pixelClass cfg)) src))) st))"
proof -
  let ?q = "convert_pixel (pixelClass cfg) F (native_init (pixelClass cfg)) src"
  have l: "length ?q = sizeof_pixel (pixelClass cfg)"
    using convert_pixel_fields [OF assms(4), of "pixelClass cfg"] by simp
  have b: "stripBPP (pixelClass cfg) = sizeof_pixel (pixelClass cfg)"
    using assms(2) by (rule stripBPP_other_formats)
  have "sizeof_pixel (pixelClass cfg) < 65536" by (cases "pixelClass cfg") simp_all
  then have u: "unat (of_nat (sizeof_pixel (pixelClass cfg)) :: 16 word) = sizeof_pixel (pixelClass cfg)"
    by (simp add: unsigned_of_nat take_bit_eq_mod)
  have "sendBytes cfg (of_nat (stripBPP (pixelClass cfg))) ?q
        = Some (Inr (concat (map (onePortByte cfg) ?q)))"
    using assms(1) l by (simp add: sendBytes_def onePort_bytes b u)
  then show ?thesis
    using assms(1) by (simp add: send_converted_pixel [OF assms(3,4)] transmit_def)
qed

lemma send_native_one_port_whole:
  assumes "protocol cfg = ONE_PORT_BITBANG" "pixelClass cfg \<noteq> hbgr"
    and "length array = unat numPixels * sizeof_pixel (pixelClass cfg)"
    and "unat numPixels * sizeof_pixel (pixelClass cfg) < 65536"
  shows "send cfg (pixelClass cfg) numPixels array st
         = Some (Inr (emit (concat (map (onePortByte cfg) array)) st))"
proof -
  have b: "stripBPP (pixelClass cfg) = sizeof_pixel (pixelClass cfg)"
    using assms(2) by (rule stripBPP_other_formats)
  have "sizeof_pixel (pixelClass cfg) < 65536" by (cases "pixelClass cfg") simp_all
  then have "unat (of_nat (sizeof_pixel (pixelClass cfg)) :: 16 word) = sizeof_pixel (pixelClass cfg)"
    by (simp add: unsigned_of_nat take_bit_eq_mod)
  then have u: "unat (numPixels * of_nat (stripBPP (pixelClass cfg))) = length array"
    using assms(3,4) by (simp add: b unat_word_ariths)
  show ?thesis
    using send_native_one_port [of cfg numPixels array st] assms(1) u by simp
qed

text \<open>
  Claim C4. The APA-102 preset has the native format \<open>hbgr\<close>, four bytes per pixel, and
  \<open>stripBPP = 3\<close>. A source pixel already in \<open>hbgr\<close> is forwarded with a byte count of 3:
  of its bytes \<open>0xFF, 1, 2, 3\<close> only the first three are transmitted. A source pixel in
  \<open>rgb\<close> is converted to the native pixel \<open>0xFF, b, g, r\<close>, and again three bytes are
  transmitted: the red byte is not.
\<close>

theorem send_hbgr_drops_fourth_byte:
  "stripBPP (pixelClass (apa102 16000000 PortD 6 PortB 5)) = 3
   \<and> sizeof_pixel (pixelClass (apa102 16000000 PortD 6 PortB 5)) = 4
   \<and> send (apa102 16000000 PortD 6 PortB 5) hbgr 1 [0xFF, 1, 2, 3] st
       = Some (Inr ((emit (concat (map (spiByte (apa102 16000000 PortD 6 PortB 5)) [0xFF, 1, 2])) st)
                      \<lparr>pixelsDisplayed := pixelsDisplayed st + 1\<rparr>))
   \<and> convert_pixel hbgr rgb (native_init hbgr) [10, 20, 30] = [0xFF, 30, 20, 10]
   \<and> send (apa102 16000000 PortD 6 PortB 5) rgb 1 [10, 20, 30] st
       = Some (Inr ((emit (concat (map (spiByte (apa102 16000000 PortD 6 PortB 5)) [0xFF, 30, 20])) st)
                      \<lparr>pixelsDisplayed := pixelsDisplayed st + 1\<rparr>))"
proof -
  let ?A = "apa102 16000000 PortD 6 PortB 5"
  have c: "convert_pixel hbgr rgb (native_init hbgr) [10, 20, 30] = [0xFF, 30, 20, 10]"
    by (simp add: convert_pixel_def native_init_values PT_RGB_def PT_BGR_def PT_XXXW_def
          PT_BXXX_def)
  have t: "pixel_type rgb \<noteq> pixel_type hbgr"
    by (simp add: PT_RGB_def PT_BGR_def PT_BXXX_def)
  have sb: "sendBytes ?A 3 p = Some (Inr (concat (map (spiByte ?A) (take 3 p))))"
    if "3 \<le> length p" for p
    using that by (simp add: sendBytes_def apa102_fields spi_bytes)
  have same: "send ?A hbgr 1 [0xFF, 1, 2, 3] st
       = Some (Inr ((emit (concat (map (spiByte ?A) [0xFF, 1, 2])) st)
                      \<lparr>pixelsDisplayed := pixelsDisplayed st + 1\<rparr>))"
    using send_native_spi [of ?A 1 "[0xFF, 1, 2, 3]" st]
    by (simp add: apa102_fields stripBPP_values)
  have conv: "send ?A rgb 1 [10, 20, 30] st
       = Some (Inr ((emit (concat (map (spiByte ?A) [0xFF, 30, 20])) st)
                      \<lparr>pixelsDisplayed := pixelsDisplayed st + 1\<rparr>))"
    using send_converted_pixel [of rgb ?A "[10, 20, 30]" st] t
    by (simp add: apa102_fields stripBPP_values c sb transmit_def emit_pd)
  show ?thesis
    using same conv c by (simp add: apa102_fields stripBPP_values)
qed

subsection \<open>Palette pixels\<close>

lemma ws2812b_timings:
  "high1 (ws2812b 16000000 dId dPin) = 8" "low1 (ws2812b 16000000 dId dPin) = 2"
  "high0 (ws2812b 16000000 dId dPin) = 2" "low0 (ws2812b 16000000 dId dPin) = 4"
  "dataPortId (ws2812b 16000000 dId dPin) = dId" "dataPortPin (ws2812b 16000000 dId dPin) = dPin"
  by (simp_all add: ws2812b_def ws2812b_timing_def CYCLES_def NS_PER_SEC_def)

text \<open>
  Claim C1. With two bits per pixel, the packed byte \<open>0xE4\<close> holds the colour indices
  0, 1, 2, 3 for the logical positions 0 .. 3. With the remap table \<open>[3, 0]\<close> the claim
  has \<open>palette[3]\<close> sent at position 0 and \<open>palette[0]\<close> at position 1. The code sends
  \<open>palette[i]\<close>: the bytes of \<open>palette[0]\<close> and then of \<open>palette[1]\<close>.
\<close>

theorem send_palette_ignores_colour_index:
  "GET_PIXEL [0xE4] 3 2 = Inr 3
   \<and> GET_PIXEL [0xE4] 0 2 = Inr 0
   \<and> send_palette (ws2812b 16000000 PortD 6) 2 8 2 [0xE4]
         (Some [10, 11, 12, 20, 21, 22, 30, 31, 32, 40, 41, 42]) grb (Some [3, 0]) st
       = Some (Inr (emit (concat (map (onePortByte (ws2812b 16000000 PortD 6))
                                   [10, 11, 12, 20, 21, 22])) st))
   \<and> concat (map (onePortByte (ws2812b 16000000 PortD 6)) [10, 11, 12, 20, 21, 22])
       \<noteq> concat (map (onePortByte (ws2812b 16000000 PortD 6)) [40, 41, 42, 10, 11, 12])"
proof -
  let ?W = "ws2812b 16000000 PortD 6"
  have g: "GET_PIXEL [0xE4] 3 2 = Inr 3" "GET_PIXEL [0xE4] 0 2 = Inr 0"
    by (simp_all add: GET_PIXEL_def)
  have s: "send ?W grb 1 array st' = Some (Inr (emit (concat (map (onePortByte ?W) (take 3 array))) st'))"
    if "3 \<le> length array" for array st'
    using that send_native_one_port [of ?W 1 array st']
    by (simp add: ws2812b_fields stripBPP_values)
  have "send_palette ?W 2 8 2 [0xE4]
         (Some [10, 11, 12, 20, 21, 22, 30, 31, 32, 40, 41, 42]) grb (Some [3, 0]) st
       = Some (Inr (emit (concat (map (onePortByte ?W) [10, 11, 12, 20, 21, 22])) st))"
    by (simp add: send_palette_def upt_conv_Cons read_at_def g s emit_emit)
  moreover have "concat (map (onePortByte ?W) [10, 11, 12, 20, 21, 22])
       \<noteq> concat (map (onePortByte ?W) [40, 41, 42, 10, 11, 12])"
    by (simp add: onePortByte_def bit_positions_def onePortBit_def ws2812b_timings
          SET_PORT_HIGH_def SET_PORT_LOW_def DELAY_CYCLES_def sbiCycles_def cbiCycles_def
          bit_numeral_word_iff)
  ultimately show ?thesis using g by simp
qed

subsection \<open>Packed 16-bit pixels\<close>

text \<open>
  Claim C8. The 16-bit \<open>send\<close> is to clamp a brightness of 0 to 1 and to send, for each
  packed value, a native pixel with the three scaled channels. The statement that is
  to clamp, \<open>brightness = 1\<close>, assigns to the parameter declared
  \<open>const uint8_t brightness\<close>, so the overload is rejected for every native format,
  every array and every brightness, and no native pixel is produced: for the WS2812B
  preset, \<open>send(1, {0xFFFF}, 0)\<close> sends nothing, where the claim has a pixel with red 31,
  green 63 and blue 31.
\<close>

theorem send16_ill_formed:
  "send16 cfg numPixels array brightness st = Some (Inl IllFormed)
   \<and> send16 (ws2812b 16000000 PortD 6) 1 [0xFFFF] 0 (initial_state 0) = Some (Inl IllFormed)"
  by (simp add: send16_def)

end
